theory Spec2Isabelle
  imports Main
begin

section \<open>Strings of the host language\<close>

text \<open>
  A string of the extension is a sequence of UTF-16 code units. A code unit is modelled
  by its number; \<open>js\<close> turns a literal of the source into code units.
\<close>

type_synonym jschar = nat
type_synonym jsstring = "jschar list"

definition js :: "string \<Rightarrow> jsstring" where
  "js s = map of_char s"

definition endsWith :: "jsstring \<Rightarrow> jsstring \<Rightarrow> bool" where
  \<comment> \<open>\<open>String.prototype.endsWith\<close>\<close>
  "endsWith s suf =
     (length suf \<le> length s \<and> drop (length s - length suf) s = suf)"

definition quoted :: "jsstring \<Rightarrow> jsstring" where
  \<comment> \<open>the template fragment \<open>"${x}"\<close>\<close>
  "quoted x = js ''\"'' @ x @ js ''\"''"

fun join_with :: "jsstring \<Rightarrow> jsstring list \<Rightarrow> jsstring" where
  \<comment> \<open>\<open>Array.prototype.join\<close>\<close>
  "join_with sep [] = []"
| "join_with sep [x] = x"
| "join_with sep (x # y # ys) = x @ sep @ join_with sep (y # ys)"

section \<open>Regular expressions\<close>

text \<open>
  The three patterns of the source are written as syntax trees and run by a
  backtracking matcher. \<open>Cls\<close> is a character class given by inclusive ranges of code
  units, \<open>NCls\<close> its negation, \<open>Rep m n r\<close> the greedy quantifier \<open>r{m,n}\<close>, where
  \<open>n = None\<close> means no upper bound (so \<open>r*\<close> is \<open>Rep 0 None r\<close>, \<open>r+\<close> is
  \<open>Rep 1 None r\<close> and \<open>r?\<close> is \<open>Rep 0 (Some 1) r\<close>).
\<close>

datatype regex =
    Cls "(jschar \<times> jschar) list"
  | NCls "(jschar \<times> jschar) list"
  | Seq regex regex
  | Alt regex regex
  | Rep nat "nat option" regex

definition in_class :: "(jschar \<times> jschar) list \<Rightarrow> jschar \<Rightarrow> bool" where
  "in_class rs c = list_ex (\<lambda>(lo, hi). lo \<le> c \<and> c \<le> hi) rs"

definition rng :: "char \<Rightarrow> char \<Rightarrow> jschar \<times> jschar" where
  "rng a b = (of_char a, of_char b)"

definition one :: "char \<Rightarrow> jschar \<times> jschar" where
  "one a = rng a a"

definition lit :: "char \<Rightarrow> regex" where
  "lit a = Cls [one a]"

fun lits :: "string \<Rightarrow> regex" where
  \<comment> \<open>a literal run of at least one character\<close>
  "lits [] = Rep 0 (Some 0) (Cls [])"
| "lits [a] = lit a"
| "lits (a # b # bs) = Seq (lit a) (lits (b # bs))"

fun dec :: "nat option \<Rightarrow> nat option" where
  "dec None = None"
| "dec (Some n) = Some (n - 1)"

text \<open>
  \<open>rep f m n s\<close> runs the quantifier over the matcher \<open>f\<close> of its body: \<open>m\<close> iterations
  are still required, \<open>n\<close> are still allowed. Every result list holds the remainders of
  the input after a match, in the order in which backtracking tries them: a further
  iteration first, stopping here second. Once the required iterations are done, an
  iteration that consumes nothing is not taken, as in ECMAScript's RepeatMatcher.
\<close>

fun rep :: "(jsstring \<Rightarrow> jsstring list) \<Rightarrow> nat \<Rightarrow> nat option \<Rightarrow> jsstring \<Rightarrow> jsstring list" where
  "rep f (Suc m) n s =
     (if n = Some 0 then []
      else concat (map (rep f m (dec n)) (f s)))"
| "rep f 0 n s =
     (if n = Some 0 then [s]
      else concat (map (\<lambda>s'. if length s' < length s then rep f 0 (dec n) s' else []) (f s))
           @ [s])"

primrec ms :: "regex \<Rightarrow> jsstring \<Rightarrow> jsstring list" where
  "ms (Cls rs) s = (case s of [] \<Rightarrow> [] | c # t \<Rightarrow> if in_class rs c then [t] else [])"
| "ms (NCls rs) s = (case s of [] \<Rightarrow> [] | c # t \<Rightarrow> if in_class rs c then [] else [t])"
| "ms (Seq r1 r2) s = concat (map (ms r2) (ms r1 s))"
| "ms (Alt r1 r2) s = ms r1 s @ ms r2 s"
| "ms (Rep m n r) s = rep (ms r) m n s"

definition match_here :: "regex \<Rightarrow> jsstring \<Rightarrow> jsstring option" where
  \<comment> \<open>the match that starts at the head of the input: the remainder after it\<close>
  "match_here r s = (case ms r s of [] \<Rightarrow> None | s' # _ \<Rightarrow> Some s')"

fun regex_match :: "regex \<Rightarrow> jsstring \<Rightarrow> jsstring option" where
  \<comment> \<open>\<open>str.match(r)\<close> without the \<open>g\<close> flag: the text of the leftmost match, element 0
      of the result array, or None for \<open>null\<close>\<close>
  "regex_match r [] =
     (case match_here r [] of None \<Rightarrow> None | Some s' \<Rightarrow> Some [])"
| "regex_match r (c # t) =
     (case match_here r (c # t) of
        Some s' \<Rightarrow> Some (take (length (c # t) - length s') (c # t))
      | None \<Rightarrow> regex_match r t)"

function replace_all :: "regex \<Rightarrow> jsstring \<Rightarrow> jsstring \<Rightarrow> jsstring" where
  \<comment> \<open>\<open>str.replace(r, sub)\<close> with the \<open>g\<close> flag and a replacement without \<open>$\<close>
      patterns: after an empty match the scan moves on by one code unit\<close>
  "replace_all r sub [] = (case match_here r [] of None \<Rightarrow> [] | Some s' \<Rightarrow> sub)"
| "replace_all r sub (c # t) =
     (case match_here r (c # t) of
        None \<Rightarrow> c # replace_all r sub t
      | Some s' \<Rightarrow>
          if length s' < length (c # t) then
            sub @ replace_all r sub s'
          else sub @ c # replace_all r sub t)"
  by pat_completeness auto
termination
  by (relation "measure (\<lambda>(r, sub, s). length s)") auto

section \<open>Output sanitising and the server address\<close>

definition digit :: regex where
  \<comment> \<open>\<open>[0-9]\<close>, which is also \<open>\d\<close> in a pattern without the \<open>u\<close> flag\<close>
  "digit = Cls [rng CHR ''0'' CHR ''9'']"

definition ansi_pattern :: regex where
  \<comment> \<open>\<open>/[\u001b\u009b][[()#;?]*(?:[0-9]{1,4}(?:;[0-9]{0,4})*)?[0-9A-ORZcf-nqry=><]/\<close>\<close>
  "ansi_pattern =
     Seq (Cls [(0x1b, 0x1b), (0x9b, 0x9b)])
    (Seq (Rep 0 None
            (Cls [one CHR ''['', one CHR ''('', one CHR '')'', one CHR ''#'', one CHR '';'',
                  one CHR ''?'']))
    (Seq (Rep 0 (Some 1)
            (Seq (Rep 1 (Some 4) digit)
                 (Rep 0 None (Seq (lit CHR '';'') (Rep 0 (Some 4) digit)))))
         (Cls [rng CHR ''0'' CHR ''9'', rng CHR ''A'' CHR ''O'', one CHR ''R'', one CHR ''Z'',
               one CHR ''c'', rng CHR ''f'' CHR ''n'', one CHR ''q'', one CHR ''r'',
               one CHR ''y'', one CHR ''='', one CHR ''>'', one CHR ''<''])))"

definition stripAnsi :: "jsstring \<Rightarrow> jsstring" where
  "stripAnsi str = replace_all ansi_pattern [] str"

definition non_ascii_pattern :: regex where
  \<comment> \<open>\<open>/[^\x00-\x7F]/\<close>\<close>
  "non_ascii_pattern = NCls [(0x00, 0x7F)]"

definition replaceNonAscii :: "jsstring \<Rightarrow> jsstring" where
  \<comment> \<open>\<open>.replace(/[^\x00-\x7F]/g, " ")\<close>\<close>
  "replaceNonAscii str = replace_all non_ascii_pattern (js '' '') str"

definition url_pattern :: regex where
  \<comment> \<open>\<open>/http:\/\/(localhost|127\.0\.0\.1):\d+/\<close>\<close>
  "url_pattern =
     Seq (lits ''http://'')
    (Seq (Alt (lits ''localhost'') (lits ''127.0.0.1''))
    (Seq (lit CHR '':'') (Rep 1 None digit)))"

section \<open>The extension's state and its effects on the host\<close>

text \<open>
  A child process object is identified by the number of the \<open>spawn\<close> call that
  created it. Every call the extension makes on the editor, the file system or a child
  process is recorded, in order, in the trace; an assignment to the module-level variable
  \<open>previewProcess\<close> is recorded as \<open>Track\<close>, so that the trace shows its order
  relative to the calls around it.
\<close>

type_synonym handle = nat

datatype signal = SIGINT

datatype config_target = Global | Workspace | WorkspaceFolder

record js_error =
  err_message :: jsstring            \<comment> \<open>what \<open>${error.message}\<close> prints\<close>
  err_display :: jsstring            \<comment> \<open>what \<open>${error.message || error}\<close> prints\<close>
  err_stderr :: "jsstring option"    \<comment> \<open>\<open>error.stderr\<close>, None if it is falsy\<close>

datatype effect =
    AppendLine jsstring                        \<comment> \<open>\<open>outputChannel.appendLine\<close>\<close>
  | Append jsstring                            \<comment> \<open>\<open>outputChannel.append\<close>\<close>
  | ShowChannel                                \<comment> \<open>\<open>outputChannel.show(true)\<close>\<close>
  | InformationMessage jsstring
  | WarningMessage jsstring
  | ErrorMessage jsstring
  | Progress jsstring                          \<comment> \<open>\<open>withProgress\<close>, by its title\<close>
  | QuickPick "jsstring list"                  \<comment> \<open>\<open>showQuickPick\<close>, by the labels offered\<close>
  | Exec jsstring jsstring                     \<comment> \<open>\<open>exec\<close>: command line, working directory\<close>
  | Spawn handle jsstring "jsstring list" jsstring
      \<comment> \<open>\<open>spawn\<close>: the object returned, command, arguments, working directory\<close>
  | Kill handle signal
  | Track "handle option"
  | OpenBrowser jsstring                       \<comment> \<open>\<open>simpleBrowser.api.open\<close>\<close>
  | Mkdir jsstring
  | WriteFile jsstring jsstring                \<comment> \<open>path, content\<close>
  | Chmod jsstring nat
  | ConfigUpdate jsstring jsstring jsstring jsstring config_target
      \<comment> \<open>section, resource, key, value, target\<close>

record ext_state =
  previewProcess :: "handle option"
  browserOpened :: "handle \<Rightarrow> bool"
      \<comment> \<open>the variable \<open>browserOpened\<close> in the closure of the call that spawned the process\<close>
  spawned :: nat
  fs :: "jsstring \<Rightarrow> bool"             \<comment> \<open>\<open>fs.existsSync\<close>\<close>
  trace :: "effect list"

record document =
  languageId :: jsstring
  fileName :: jsstring
  uri :: jsstring

record folder =
  fsPath :: jsstring
  folder_name :: jsstring

record environment =
  env_name :: jsstring
  env_prefix :: "jsstring option"

datatype pixi_info =
    NoObject                             \<comment> \<open>a falsy JSON value\<close>
  | PixiInfo "environment list option"   \<comment> \<open>None: \<open>environments_info\<close> absent or falsy\<close>

datatype pixi_reply =
    ExecError jsstring js_error    \<comment> \<open>\<open>error.message\<close>, the value rejected\<close>
  | ParseError jsstring js_error   \<comment> \<open>the output that did not parse, the error rejected\<close>
  | Parsed pixi_info

text \<open>
  What an operation reads from its surroundings. \<open>path.join\<close> and \<open>path.basename\<close>
  belong to the runtime and are parameters; \<open>pixi_info\<close> is the outcome of running
  \<open>pixi info --json\<close> in a directory and parsing its output, with members of the
  types the extension expects; \<open>throws\<close> says whether a call on the file system or
  on the configuration throws, given everything done so far.
\<close>

text \<open>
  An activation, a command or a process event is taken one at a time. The output and the
  end of a render, of an install and of a preview reach the extension as events of their
  own. Where \<open>setupPixiEnvironment\<close> awaits \<open>pixi info\<close>, the model takes the
  outcome from the host and goes on; only the call that the install callback makes without
  awaiting it is cut at its first \<open>await\<close>, because the callback goes on from there,
  and the rest of that call is an event. The file system is what \<open>fs.existsSync\<close>
  reports; it changes by the extension's own \<open>mkdirSync\<close> and \<open>writeFileSync\<close>, and
  what the external tools write is not followed.
\<close>

record host =
  platform :: jsstring
  path_join :: "jsstring list \<Rightarrow> jsstring"
  path_basename :: "jsstring \<Rightarrow> jsstring"
  workspaceFolders :: "folder list option"
  activeTextEditor :: "document option"
  getWorkspaceFolder :: "jsstring \<Rightarrow> folder option"
  pixi_info :: "jsstring \<Rightarrow> pixi_reply"
  throws :: "effect list \<Rightarrow> effect \<Rightarrow> js_error option"

definition emit :: "effect \<Rightarrow> ext_state \<Rightarrow> ext_state" where
  "emit e s = s\<lparr>trace := trace s @ [e]\<rparr>"

definition track :: "handle option \<Rightarrow> ext_state \<Rightarrow> ext_state" where
  \<comment> \<open>\<open>previewProcess = v\<close>\<close>
  "track v s = emit (Track v) (s\<lparr>previewProcess := v\<rparr>)"

definition run :: "(ext_state \<Rightarrow> ext_state) list \<Rightarrow> ext_state \<Rightarrow> ext_state" where
  \<comment> \<open>statements in sequence\<close>
  "run steps s = foldl (\<lambda>s f. f s) s steps"

definition nl :: jsstring where
  "nl = [10]"

function show_nat :: "nat \<Rightarrow> jsstring" where
  "show_nat n = (if n < 10 then [48 + n] else show_nat (n div 10) @ [48 + n mod 10])"
  by pat_completeness auto
termination
  by (relation "measure id") auto

definition show_code :: "int option \<Rightarrow> jsstring" where
  \<comment> \<open>\<open>${code}\<close> for an exit code, which is \<open>null\<close> after a signal\<close>
  "show_code code =
     (case code of
        None \<Rightarrow> js ''null''
      | Some i \<Rightarrow> if i < 0 then js ''-'' @ show_nat (nat (- i)) else show_nat (nat i))"

section \<open>The preview supervisor\<close>

definition quartoWrapper :: "host \<Rightarrow> folder \<Rightarrow> jsstring" where
  "quartoWrapper h workspaceFolder =
     (let isWindows = (platform h = js ''win32'');
          wrapperExt = (if isWindows then js ''.bat'' else js ''.sh'');
          vscodeDir = path_join h [fsPath workspaceFolder, js ''.vscode'']
      in path_join h [vscodeDir, js ''quarto-pixi-wrapper'' @ wrapperExt])"

definition deactivate :: "ext_state \<Rightarrow> ext_state" where
  "deactivate s =
     (case previewProcess s of
        Some p \<Rightarrow> run [emit (Kill p SIGINT), track None] s
      | None \<Rightarrow> s)"

definition previewQuartoDocument :: "host \<Rightarrow> ext_state \<Rightarrow> ext_state" where
  "previewQuartoDocument h s =
     (case activeTextEditor h of
        None \<Rightarrow>
          emit (ErrorMessage (js ''No active editor found. Please open a Quarto (.qmd) file.'')) s
      | Some document \<Rightarrow>
          if languageId document \<noteq> js ''quarto''
             \<and> \<not> endsWith (fileName document) (js ''.qmd'')
             \<and> \<not> endsWith (fileName document) (js ''.rmd'')
          then emit (ErrorMessage (js ''The active file is not a Quarto or RMarkdown document.'')) s
          else
            (case getWorkspaceFolder h (uri document) of
               None \<Rightarrow> emit (ErrorMessage (js ''File is not part of a workspace.'')) s
             | Some workspaceFolder \<Rightarrow>
                 if \<not> fs s (quartoWrapper h workspaceFolder)
                 then emit (ErrorMessage
                        (js ''Pixi wrapper for Quarto not found. Please run \"Setup R and Quarto from Pixi\" first.'')) s
                 else
                   (let args = [js ''preview'', fileName document, js ''--no-browser''];
                        cwd = fsPath workspaceFolder;
                        p' = spawned s
                    in run
                         [\<lambda>s. (case previewProcess s of
                                 Some p \<Rightarrow>
                                   run [emit (AppendLine (js ''Killing existing preview process...'')),
                                        emit (Kill p SIGINT),
                                        track None] s
                               | None \<Rightarrow> s),
                          emit (AppendLine
                            (js ''Starting Preview: '' @ quoted (quartoWrapper h workspaceFolder)
                             @ js '' '' @ join_with (js '' '') args)),
                          emit ShowChannel,
                          emit (Spawn p' (quoted (quartoWrapper h workspaceFolder)) args cwd),
                          \<lambda>s. s\<lparr>spawned := Suc p'\<rparr>,
                          track (Some p'),
                          \<lambda>s. s\<lparr>browserOpened := (browserOpened s)(p' := False)\<rparr>] s)))"

definition handleOutput :: "handle \<Rightarrow> jsstring \<Rightarrow> ext_state \<Rightarrow> ext_state" where
  \<comment> \<open>the listener on \<open>stdout\<close> and on \<open>stderr\<close> of the process \<open>p\<close>; \<open>str\<close> is
      \<open>data.toString()\<close>\<close>
  "handleOutput p str s =
     (let cleanedStr = replaceNonAscii (stripAnsi str);
          s1 = emit (Append cleanedStr) s
      in if \<not> browserOpened s1 p then
           (case regex_match url_pattern cleanedStr of
              Some m \<Rightarrow>
                run [\<lambda>s. s\<lparr>browserOpened := (browserOpened s)(p := True)\<rparr>,
                     emit (AppendLine
                       (nl @ js ''[Detected local server: '' @ m
                        @ js '', opening inside VS Code...]'' @ nl)),
                     emit (OpenBrowser m)] s1
            | None \<Rightarrow> s1)
         else s1)"

definition previewOnClose :: "int option \<Rightarrow> ext_state \<Rightarrow> ext_state" where
  \<comment> \<open>the listener on \<open>close\<close>; it reads the module-level variable, not the process
      it was registered on\<close>
  "previewOnClose code s =
     run [emit (AppendLine (nl @ js ''[Preview process exited with code '' @ show_code code
                            @ js '']'' @ nl)),
          \<lambda>s. (case previewProcess s of Some p \<Rightarrow> track None s | None \<Rightarrow> s)] s"

definition previewOnError :: "js_error \<Rightarrow> ext_state \<Rightarrow> ext_state" where
  \<comment> \<open>the listener on \<open>error\<close>\<close>
  "previewOnError err s =
     emit (AppendLine (nl @ js ''[Preview process error: '' @ err_message err @ js '']'' @ nl)) s"

section \<open>Calls that may throw\<close>

text \<open>
  A call on the file system or on the configuration either throws, and then does
  nothing, or is carried out and recorded. An operation built from such calls stops at
  the first one that throws and hands the error to its caller, as an exception does.
\<close>

datatype 'a outcome = Returned 'a | Thrown js_error

type_synonym 'a action = "ext_state \<Rightarrow> 'a outcome \<times> ext_state"

fun performed :: "effect \<Rightarrow> ext_state \<Rightarrow> ext_state" where
  "performed (WriteFile p c) s = s\<lparr>fs := (fs s)(p := True)\<rparr>"
| "performed (Mkdir p) s = s\<lparr>fs := (fs s)(p := True)\<rparr>"
| "performed e s = s"

definition attempt :: "host \<Rightarrow> effect \<Rightarrow> unit action" where
  "attempt h e s =
     (case throws h (trace s) e of
        Some err \<Rightarrow> (Thrown err, s)
      | None \<Rightarrow> (Returned (), performed e (emit e s)))"

definition pure :: "(ext_state \<Rightarrow> ext_state) \<Rightarrow> unit action" where
  \<comment> \<open>a statement that cannot throw\<close>
  "pure f s = (Returned (), f s)"

definition andThen :: "'a action \<Rightarrow> ('a \<Rightarrow> 'b action) \<Rightarrow> 'b action" where
  "andThen m k s =
     (case m s of
        (Thrown err, s') \<Rightarrow> (Thrown err, s')
      | (Returned a, s') \<Rightarrow> k a s')"

fun sequence :: "unit action list \<Rightarrow> unit action" where
  "sequence [] s = (Returned (), s)"
| "sequence (a # as) s =
     (case a s of
        (Thrown err, s') \<Rightarrow> (Thrown err, s')
      | (Returned u, s') \<Rightarrow> sequence as s')"

definition only_if :: "bool \<Rightarrow> unit action \<Rightarrow> unit action" where
  "only_if c a = (if c then a else pure id)"

definition try_catch ::
  "unit action \<Rightarrow> (js_error \<Rightarrow> ext_state \<Rightarrow> ext_state) \<Rightarrow> ext_state \<Rightarrow> ext_state" where
  \<comment> \<open>\<open>try { a } catch (err) { handler }\<close>\<close>
  "try_catch a handler s =
     (case a s of
        (Returned u, s') \<Rightarrow> s'
      | (Thrown err, s') \<Rightarrow> handler err s')"

definition existsSync :: "jsstring \<Rightarrow> (bool \<Rightarrow> 'a action) \<Rightarrow> 'a action" where
  \<comment> \<open>\<open>fs.existsSync(path)\<close>, read at this point, and what is done with the answer\<close>
  "existsSync path k s = k (fs s path) s"

definition truthy :: "jsstring option \<Rightarrow> jsstring option" where
  \<comment> \<open>a value of type \<open>string | undefined\<close> used as a condition: the string when
      the condition holds, None when the value is \<open>undefined\<close> or the empty string\<close>
  "truthy v = (case v of None \<Rightarrow> None | Some x \<Rightarrow> if x = [] then None else Some x)"

section \<open>Setting up a workspace folder\<close>

definition mode_755 :: nat where
  \<comment> \<open>the octal literal \<open>0o755\<close>\<close>
  "mode_755 = 7 * 64 + 5 * 8 + 5"

record wrapper_paths =
  ret_rPath :: jsstring
  ret_rTermPath :: jsstring
  ret_quartoPath :: jsstring

definition condaShimContent :: jsstring where
  "condaShimContent =
     join_with (js ''\<newline>'')
       [js ''#!/bin/sh'',
        js ''# Minimal conda shim for reticulate compatibility.'',
        js ''# reticulate calls: conda run --prefix <prefix> python -c \"import os; print(os.environ['PATH'])\"'',
        js ''# to resolve the activated PATH. Return prefix/bin prepended to PATH.'',
        js ''PREFIX=\"\"'',
        js ''for arg in \"$@\"; do'',
        js ''  [ \"$prev\" = \"--prefix\" ] || [ \"$prev\" = \"-p\" ] && PREFIX=$arg'',
        js ''  prev=$arg'',
        js ''done'',
        js ''[ -n \"$PREFIX\" ] && echo \"${PREFIX}/bin:${PATH}\" || echo \"${PATH}\"'',
        js '''']"

definition activateShimContent :: jsstring where
  "activateShimContent =
     join_with (js ''\<newline>'')
       [js ''#!/bin/sh'',
        js ''# Minimal activate shim for reticulate compatibility (no-op for pixi envs).'',
        js '''']"

definition createWrapperScripts ::
  "host \<Rightarrow> jsstring \<Rightarrow> jsstring \<Rightarrow> jsstring \<Rightarrow> wrapper_paths action" where
  "createWrapperScripts h workspacePath envName prefix =
     (let isWindows = (platform h = js ''win32'');
          vscodeDir = path_join h [workspacePath, js ''.vscode''];
          wrapperExt = (if isWindows then js ''.bat'' else js ''.sh'');
          rTermWrapperPath = path_join h [vscodeDir, js ''rterm-pixi-wrapper'' @ wrapperExt];
          quartoWrapperPath = path_join h [vscodeDir, js ''quarto-pixi-wrapper'' @ wrapperExt];
          pixiTomlPath = path_join h [workspacePath, js ''pixi.toml''];
          pyprojectTomlPath = path_join h [workspacePath, js ''pyproject.toml''];
          pixiActivatePath = path_join h [workspacePath, js ''.pixi-activate.sh''];
          rBinPath =
            (if isWindows then path_join h [prefix, js ''lib'', js ''R'', js ''bin'', js ''R.exe'']
             else path_join h [prefix, js ''bin'', js ''R'']);
          envBin = path_join h [prefix, js ''bin''];
          condaShimPath = path_join h [envBin, js ''conda''];
          activateShimPath = path_join h [envBin, js ''activate'']
      in
        andThen
          (existsSync vscodeDir (\<lambda>found. only_if (\<not> found) (attempt h (Mkdir vscodeDir))))
       (\<lambda>u. andThen
          (existsSync pixiTomlPath (\<lambda>found.
            (let manifestPath = (if found then pixiTomlPath else pyprojectTomlPath);
                 baseContent =
                   (if isWindows then
                      js ''@echo off\<newline>pixi run --manifest-path '' @ quoted manifestPath
                      @ js '' -e '' @ envName
                    else
                      js ''#!/bin/sh\<newline>exec pixi run --manifest-path '' @ quoted manifestPath
                      @ js '' -e '' @ envName);
                 rTermScriptContent =
                   (if isWindows then baseContent @ js '' R %*''
                    else baseContent @ js '' R \"$@\"'');
                 quartoScriptContent =
                   (if isWindows then baseContent @ js '' quarto %*''
                    else baseContent @ js '' quarto \"$@\"'')
             in sequence
                  [attempt h (WriteFile rTermWrapperPath rTermScriptContent),
                   attempt h (WriteFile quartoWrapperPath quartoScriptContent),
                   only_if (\<not> isWindows) (attempt h (Chmod rTermWrapperPath mode_755)),
                   only_if (\<not> isWindows) (attempt h (Chmod quartoWrapperPath mode_755))])))
       (\<lambda>u. andThen
          (existsSync pixiActivatePath (\<lambda>found. only_if (\<not> found)
             (sequence
                [attempt h (WriteFile pixiActivatePath
                   (js ''#!/bin/sh\<newline># Project-level pixi activation hook (intentionally empty)\<newline>'')),
                 only_if (\<not> isWindows) (attempt h (Chmod pixiActivatePath mode_755)),
                 pure (emit (AppendLine (js ''Created '' @ pixiActivatePath)))])))
       (\<lambda>u. andThen
          (only_if (\<not> isWindows)
             (sequence
                [attempt h (WriteFile condaShimPath condaShimContent),
                 attempt h (Chmod condaShimPath mode_755),
                 pure (emit (AppendLine (js ''Created conda shim: '' @ condaShimPath))),
                 attempt h (WriteFile activateShimPath activateShimContent),
                 attempt h (Chmod activateShimPath mode_755),
                 pure (emit (AppendLine (js ''Created activate shim: '' @ activateShimPath)))]))
       (\<lambda>u. andThen
          (sequence
             [pure (emit (AppendLine (js ''Created wrapper scripts in '' @ vscodeDir))),
              pure (emit (AppendLine (js ''R binary path for r.rpath: '' @ rBinPath)))])
       (\<lambda>u s. (Returned \<lparr>ret_rPath = rBinPath, ret_rTermPath = rTermWrapperPath,
                             ret_quartoPath = quartoWrapperPath\<rparr>, s)))))))"

definition getPixiInfoStart :: "jsstring \<Rightarrow> ext_state \<Rightarrow> ext_state" where
  \<comment> \<open>\<open>getPixiInfo\<close> up to its call of \<open>exec\<close>, where the promise is returned\<close>
  "getPixiInfoStart workspacePath =
     run [emit (AppendLine (js ''Executing 'pixi info --json' in '' @ workspacePath)),
          emit (Exec (js ''pixi info --json'') workspacePath)]"

definition getPixiInfoCallback :: "host \<Rightarrow> jsstring \<Rightarrow> pixi_info action" where
  \<comment> \<open>the callback handed to \<open>exec\<close>, which settles the promise\<close>
  "getPixiInfoCallback h workspacePath s =
     (case pixi_info h workspacePath of
        ExecError message rejected \<Rightarrow>
          (Thrown rejected, emit (AppendLine (js ''Command execution error: '' @ message)) s)
      | ParseError stdout parseError \<Rightarrow>
          (Thrown parseError,
           emit (AppendLine (js ''Failed to parse pixi info JSON. Stdout: '' @ stdout)) s)
      | Parsed info \<Rightarrow> (Returned info, s))"

definition getPixiInfo :: "host \<Rightarrow> jsstring \<Rightarrow> pixi_info action" where
  \<comment> \<open>\<open>await getPixiInfo(workspacePath)\<close>\<close>
  "getPixiInfo h workspacePath s =
     getPixiInfoCallback h workspacePath (getPixiInfoStart workspacePath s)"

definition configureWorkspaceSettings ::
  "host \<Rightarrow> folder \<Rightarrow> jsstring \<Rightarrow> jsstring \<Rightarrow> jsstring \<Rightarrow> ext_state \<Rightarrow> ext_state" where
  "configureWorkspaceSettings h folder rPath rTermPath quartoPath s =
     (let isWindows = (platform h = js ''win32'');
          rConfig = (\<lambda>key v. attempt h (ConfigUpdate (js ''r'') (fsPath folder) key v Workspace));
          quartoConfig =
            (\<lambda>key v. attempt h (ConfigUpdate (js ''quarto'') (fsPath folder) key v Workspace))
      in run
           [emit (AppendLine (js ''Configuring settings for platform: '' @ platform h)),
            emit (AppendLine (js ''Calculated R binary path (r.rpath): '' @ rPath)),
            emit (AppendLine (js ''Calculated R term path  (r.rterm): '' @ rTermPath)),
            emit (AppendLine (js ''Calculated Quarto path  (quarto.path): '' @ quartoPath)),
            try_catch
              (sequence
                 [if isWindows then
                    sequence [rConfig (js ''rpath.windows'') rPath,
                              rConfig (js ''rterm.windows'') rTermPath,
                              pure (emit (AppendLine (js ''Updated Windows R paths.'')))]
                  else if platform h = js ''darwin'' then
                    sequence [rConfig (js ''rpath.mac'') rPath,
                              rConfig (js ''rterm.mac'') rTermPath,
                              pure (emit (AppendLine (js ''Updated macOS R paths.'')))]
                  else
                    sequence [rConfig (js ''rpath.linux'') rPath,
                              rConfig (js ''rterm.linux'') rTermPath,
                              pure (emit (AppendLine (js ''Updated Linux R paths.'')))],
                  quartoConfig (js ''path'') quartoPath,
                  pure (emit (AppendLine (js ''Updated Quarto path.''))),
                  pure (emit (AppendLine
                    (js ''Successfully applied settings to .vscode/settings.json.'')))])
              (\<lambda>err. emit (AppendLine
                 (js ''Error updating workspace configuration: '' @ err_message err)))] s)"

definition selectDefaultEnv :: "environment list \<Rightarrow> environment option" where
  \<comment> \<open>\<open>environments_info.find((e) => e.name === 'default') || environments_info[0]\<close>;
      None is \<open>undefined\<close>\<close>
  "selectDefaultEnv environments_info =
     (case find (\<lambda>e. env_name e = js ''default'') environments_info of
        Some e \<Rightarrow> Some e
      | None \<Rightarrow> (case environments_info of [] \<Rightarrow> None | e # es \<Rightarrow> Some e))"

definition undefined_prefix_error :: js_error where
  \<comment> \<open>the TypeError of reading a property of \<open>undefined\<close>\<close>
  "undefined_prefix_error =
     \<lparr>err_message = js ''Cannot read properties of undefined (reading 'prefix')'',
      err_display = js ''Cannot read properties of undefined (reading 'prefix')'',
      err_stderr = None\<rparr>"

definition setupWithInfo :: "host \<Rightarrow> folder \<Rightarrow> pixi_info \<Rightarrow> unit action" where
  \<comment> \<open>the \<open>try\<close> block of \<open>setupPixiEnvironment\<close> once \<open>pixiInfo\<close> is there\<close>
  "setupWithInfo h folder pixiInfo =
     (case pixiInfo of
        PixiInfo (Some environments_info) \<Rightarrow>
          if length environments_info > 0 then
            (case selectDefaultEnv environments_info of
               None \<Rightarrow> (\<lambda>s. (Thrown undefined_prefix_error, s))
             | Some defaultEnv \<Rightarrow>
                 (case truthy (env_prefix defaultEnv) of
                    Some prefix \<Rightarrow>
                      andThen
                        (pure (emit (AppendLine
                           (js ''Detected Pixi environment prefix: '' @ prefix))))
                     (\<lambda>u. andThen
                        (createWrapperScripts h (fsPath folder) (env_name defaultEnv) prefix)
                     (\<lambda>wrapperPaths.
                        pure (run
                          [configureWorkspaceSettings h folder (ret_rPath wrapperPaths)
                             (ret_rTermPath wrapperPaths) (ret_quartoPath wrapperPaths),
                           emit (InformationMessage
                             (js ''R and Quarto configured to use Pixi environment: ''
                              @ env_name defaultEnv))])))
                  | None \<Rightarrow>
                      pure (emit (AppendLine
                        (js ''Error: No prefix found for environment ''
                         @ env_name defaultEnv)))))
          else
            pure (emit (AppendLine
              (js ''Warning: Valid pixi info obtained, but no environments found.'')))
      | PixiInfo None \<Rightarrow>
          pure (emit (AppendLine
            (js ''Warning: Valid pixi info obtained, but no environments found.'')))
      | NoObject \<Rightarrow>
          pure (emit (AppendLine
            (js ''Warning: Valid pixi info obtained, but no environments found.''))))"

definition setupFromInfo :: "host \<Rightarrow> folder \<Rightarrow> unit action" where
  \<comment> \<open>the \<open>try\<close> block of \<open>setupPixiEnvironment\<close>\<close>
  "setupFromInfo h folder = andThen (getPixiInfo h (fsPath folder)) (setupWithInfo h folder)"

definition setupFailed :: "js_error \<Rightarrow> ext_state \<Rightarrow> ext_state" where
  \<comment> \<open>the \<open>catch\<close> block of \<open>setupPixiEnvironment\<close>\<close>
  "setupFailed error =
     run [emit (AppendLine (js ''Failed to setup Pixi environment. Error: '' @ err_display error)),
          (case err_stderr error of
             Some stderr \<Rightarrow> emit (AppendLine (js ''Stderr: '' @ stderr))
           | None \<Rightarrow> id),
          emit (ErrorMessage
            (js ''Failed to configure Pixi environment for R and Quarto. Check the \"R Pixi Venv\" output channel for details.''))]"

definition setupFolder :: "host \<Rightarrow> folder \<Rightarrow> ext_state \<Rightarrow> ext_state" where
  \<comment> \<open>the body of the loop of \<open>setupPixiEnvironment\<close>\<close>
  "setupFolder h folder =
     (let pixiTomlPath = path_join h [fsPath folder, js ''pixi.toml''];
          pyprojectTomlPath = path_join h [fsPath folder, js ''pyproject.toml'']
      in run
           [emit (AppendLine
              (js ''Checking for pixi.toml or pyproject.toml at: '' @ fsPath folder)),
            \<lambda>s. if fs s pixiTomlPath \<or> fs s pyprojectTomlPath then
                   run [emit (AppendLine (js ''Found Pixi manifest in '' @ folder_name folder)),
                        try_catch (setupFromInfo h folder) setupFailed]
                     s
                 else emit (AppendLine (js ''No pixi.toml found in '' @ folder_name folder)) s])"

definition setupPixiEnvironment :: "host \<Rightarrow> ext_state \<Rightarrow> ext_state" where
  "setupPixiEnvironment h s =
     (case workspaceFolders h of
        None \<Rightarrow> emit (AppendLine (js ''No workspace folders found.'')) s
      | Some folders \<Rightarrow> foldl (\<lambda>s folder. setupFolder h folder s) s folders)"

text \<open>
  The same function cut at its first \<open>await\<close>, for the caller that does not await it:
  what it does before it first awaits \<open>pixi info\<close>, and what it does from there on.
\<close>

fun setupUntilAwait ::
  "host \<Rightarrow> folder list \<Rightarrow> ext_state \<Rightarrow> (folder \<times> folder list) option \<times> ext_state" where
  \<comment> \<open>the loop up to its first \<open>await\<close>; returned are the folder whose \<open>pixi info\<close>
      is awaited and the folders still to visit, None if the loop ends without an
      \<open>await\<close>\<close>
  "setupUntilAwait h [] s = (None, s)"
| "setupUntilAwait h (folder # rest) s =
     (let pixiTomlPath = path_join h [fsPath folder, js ''pixi.toml''];
          pyprojectTomlPath = path_join h [fsPath folder, js ''pyproject.toml''];
          s1 = emit (AppendLine
                 (js ''Checking for pixi.toml or pyproject.toml at: '' @ fsPath folder)) s
      in if fs s1 pixiTomlPath \<or> fs s1 pyprojectTomlPath then
           (Some (folder, rest),
            run [emit (AppendLine (js ''Found Pixi manifest in '' @ folder_name folder)),
                 getPixiInfoStart (fsPath folder)] s1)
         else
           setupUntilAwait h rest
             (emit (AppendLine (js ''No pixi.toml found in '' @ folder_name folder)) s1))"

definition setupStart ::
  "host \<Rightarrow> ext_state \<Rightarrow> (folder \<times> folder list) option \<times> ext_state" where
  \<comment> \<open>\<open>setupPixiEnvironment()\<close> up to its first \<open>await\<close>\<close>
  "setupStart h s =
     (case workspaceFolders h of
        None \<Rightarrow> (None, emit (AppendLine (js ''No workspace folders found.'')) s)
      | Some folders \<Rightarrow> setupUntilAwait h folders s)"

definition setupResume :: "host \<Rightarrow> folder \<Rightarrow> folder list \<Rightarrow> ext_state \<Rightarrow> ext_state" where
  \<comment> \<open>\<open>setupPixiEnvironment\<close> from the \<open>await\<close> of \<open>pixi info\<close> for \<open>folder\<close>
      on: the rest of the \<open>try\<close> statement, then the folders still to visit\<close>
  "setupResume h folder rest s =
     foldl (\<lambda>s folder. setupFolder h folder s)
       (try_catch (andThen (getPixiInfoCallback h (fsPath folder)) (setupWithInfo h folder))
          setupFailed s)
       rest"

section \<open>Rendering\<close>

definition stdoutData :: "jsstring \<Rightarrow> ext_state \<Rightarrow> ext_state" where
  \<comment> \<open>the listener that \<open>renderQuartoDocument\<close> and \<open>installPixiDependencies\<close> put on
      \<open>cp.stdout\<close>; \<open>str\<close> is \<open>data.toString()\<close>\<close>
  "stdoutData str s = emit (Append (stripAnsi str)) s"

definition stderrData :: "jsstring \<Rightarrow> ext_state \<Rightarrow> ext_state" where
  \<comment> \<open>the listener they put on \<open>cp.stderr\<close>\<close>
  "stderrData str s =
     (let cleanedStr = replaceNonAscii (stripAnsi str) in emit (Append cleanedStr) s)"

definition renderQuartoDocument :: "host \<Rightarrow> jsstring option \<Rightarrow> ext_state \<Rightarrow> ext_state" where
  "renderQuartoDocument h format s =
     (case activeTextEditor h of
        None \<Rightarrow>
          emit (ErrorMessage (js ''No active editor found. Please open a Quarto (.qmd) file.'')) s
      | Some document \<Rightarrow>
          if languageId document \<noteq> js ''quarto''
             \<and> \<not> endsWith (fileName document) (js ''.qmd'')
             \<and> \<not> endsWith (fileName document) (js ''.rmd'')
          then emit (ErrorMessage (js ''The active file is not a Quarto or RMarkdown document.'')) s
          else
            (case getWorkspaceFolder h (uri document) of
               None \<Rightarrow> emit (ErrorMessage (js ''File is not part of a workspace.'')) s
             | Some workspaceFolder \<Rightarrow>
                 if \<not> fs s (quartoWrapper h workspaceFolder)
                 then emit (ErrorMessage
                        (js ''Pixi wrapper for Quarto not found. Please run \"Setup R and Quarto from Pixi\" first.'')) s
                 else
                   (let formatDisplay =
                          (case truthy format of Some f \<Rightarrow> js '' to '' @ f | None \<Rightarrow> []);
                        formatArg =
                          (case truthy format of Some f \<Rightarrow> js '' --to '' @ f | None \<Rightarrow> []);
                        command = quoted (quartoWrapper h workspaceFolder) @ js '' render ''
                                  @ quoted (fileName document) @ formatArg;
                        cwd = fsPath workspaceFolder
                    in run
                         [emit (Progress
                            (js ''Rendering '' @ path_basename h (fileName document)
                             @ formatDisplay @ js '' via Pixi...'')),
                          emit (AppendLine (js ''Executing: '' @ command)),
                          emit ShowChannel,
                          emit (Exec command cwd)] s)))"

definition renderCallback :: "jsstring option \<Rightarrow> js_error option \<Rightarrow> ext_state \<Rightarrow> ext_state" where
  \<comment> \<open>the callback handed to \<open>exec\<close> by a render started with \<open>format\<close>\<close>
  "renderCallback format error s =
     (let formatDisplay = (case truthy format of Some f \<Rightarrow> js '' to '' @ f | None \<Rightarrow> [])
      in case error of
           Some err \<Rightarrow>
             run [emit (AppendLine (js ''Render error: '' @ err_message err)),
                  emit (ErrorMessage
                    (js ''Failed to render Quarto document'' @ formatDisplay
                     @ js ''. Check the \"R Pixi Venv\" output channel.''))] s
         | None \<Rightarrow>
             emit (InformationMessage
               (js ''Quarto document rendered'' @ formatDisplay @ js '' successfully!'')) s)"

definition formats :: "(jsstring \<times> jsstring) list" where
  \<comment> \<open>label, description\<close>
  "formats =
     [(js ''html'', js ''HTML Document''),
      (js ''pdf'', js ''PDF Document (requires LaTeX or Typst)''),
      (js ''docx'', js ''Word Document''),
      (js ''typst'', js ''Typst Document (fast PDF generation)''),
      (js ''revealjs'', js ''Reveal.js Presentation''),
      (js ''pptx'', js ''PowerPoint Presentation''),
      (js ''gfm'', js ''GitHub Flavored Markdown'')]"

definition renderQuartoDocumentWithFormat :: "host \<Rightarrow> nat option \<Rightarrow> ext_state \<Rightarrow> ext_state" where
  \<comment> \<open>\<open>picked\<close> is the position of the item the user picks, None when the user cancels\<close>
  "renderQuartoDocumentWithFormat h picked s =
     (let s1 = emit (QuickPick (map fst formats)) s
      in case picked of
           None \<Rightarrow> s1
         | Some i \<Rightarrow>
             if i < length formats then renderQuartoDocument h (Some (fst (formats ! i))) s1
             else s1)"

section \<open>Installing the tools\<close>

text \<open>
  \<open>installPixiDependencies\<close> awaits each install before it goes to the next folder.
  The install ends when \<open>exec\<close> calls the callback, and the loop goes on from there.
\<close>

fun installFrom :: "host \<Rightarrow> folder list \<Rightarrow> ext_state \<Rightarrow> ext_state" where
  \<comment> \<open>the loop of \<open>installPixiDependencies\<close> over the folders still to visit, up to
      the \<open>await\<close> of the first install it starts\<close>
  "installFrom h [] s = s"
| "installFrom h (folder # rest) s =
     (let pixiTomlPath = path_join h [fsPath folder, js ''pixi.toml''];
          pyprojectTomlPath = path_join h [fsPath folder, js ''pyproject.toml'']
      in if fs s pixiTomlPath \<or> fs s pyprojectTomlPath then
           run [emit (Progress
                  (js ''Installing R and Quarto via Pixi in '' @ folder_name folder @ js ''...'')),
                emit (AppendLine
                  (js ''Executing 'pixi add r-base r-languageserver quarto -c conda-forge' in ''
                   @ fsPath folder)),
                emit (Exec (js ''pixi add r-base r-languageserver quarto -c conda-forge'')
                  (fsPath folder))] s
         else
           installFrom h rest
             (emit (WarningMessage
                (js ''No pixi.toml or pyproject.toml found in the workspace.'')) s))"

definition installPixiDependencies :: "host \<Rightarrow> ext_state \<Rightarrow> ext_state" where
  "installPixiDependencies h s =
     (case workspaceFolders h of
        None \<Rightarrow> emit (ErrorMessage (js ''No workspace folders found.'')) s
      | Some folders \<Rightarrow> installFrom h folders s)"

definition installCallback ::
  "host \<Rightarrow> folder list \<Rightarrow> js_error option \<Rightarrow> jsstring \<Rightarrow> jsstring \<Rightarrow> ext_state \<Rightarrow> ext_state" where
  \<comment> \<open>the callback handed to \<open>exec\<close> by an install; \<open>rest\<close> are the folders the
      loop has still to visit. On an error the awaited promise is rejected and the loop
      ends. Otherwise \<open>setupPixiEnvironment()\<close> is called and not awaited: it runs up to
      its first \<open>await\<close>, then the promise is resolved and the loop goes on.\<close>
  "installCallback h rest error stdout stderr s =
     (case error of
        Some err \<Rightarrow>
          run [emit (AppendLine (js ''Install error: '' @ err_message err)),
               emit (AppendLine (js ''Stderr: '' @ stderr)),
               emit (ErrorMessage
                 (js ''Failed to install R and Quarto via Pixi. Check the \"R Pixi Venv\" output channel.''))]
            s
      | None \<Rightarrow>
          run [emit (AppendLine (js ''Install output: '' @ stdout)),
               emit (InformationMessage (js ''Successfully installed R and Quarto via Pixi.'')),
               \<lambda>s. snd (setupStart h s),
               installFrom h rest] s)"

section \<open>The extension as a reactive system\<close>

text \<open>
  Everything that reaches the extension: its activation and deactivation, the five
  commands, and the events of the processes it started. An event of a callback carries
  what the callback holds in its closure: the format of the render; the folders the
  install loop has still to visit; the folder whose \<open>pixi info\<close> the setup started by an
  install awaits, and the folders that setup has still to visit.
\<close>

datatype event =
    Activate
  | Deactivate
  | SetupCommand
  | InstallCommand
  | RenderCommand
  | RenderFormatCommand "nat option"
  | PreviewCommand
  | RenderStdout jsstring
  | RenderStderr jsstring
  | RenderFinished "jsstring option" "js_error option"
  | InstallStdout jsstring
  | InstallStderr jsstring
  | InstallFinished "folder list" "js_error option" jsstring jsstring
  | SetupResumed folder "folder list"
  | PreviewOutput handle jsstring
  | PreviewClose "int option"
  | PreviewFailure js_error

fun step :: "host \<Rightarrow> event \<Rightarrow> ext_state \<Rightarrow> ext_state" where
  "step h Activate s =
     run [emit (AppendLine (js ''Activating r-pixi-venv extension'')),
          setupPixiEnvironment h] s"
| "step h Deactivate s = deactivate s"
| "step h SetupCommand s =
     run [emit (AppendLine (js ''Manual setup command triggered.'')),
          setupPixiEnvironment h] s"
| "step h InstallCommand s =
     run [emit (AppendLine (js ''Install dependencies command triggered.'')),
          installPixiDependencies h] s"
| "step h RenderCommand s =
     run [emit (AppendLine (js ''Render Quarto command triggered.'')),
          renderQuartoDocument h None] s"
| "step h (RenderFormatCommand picked) s =
     run [emit (AppendLine (js ''Render Quarto (Format) command triggered.'')),
          renderQuartoDocumentWithFormat h picked] s"
| "step h PreviewCommand s =
     run [emit (AppendLine (js ''Preview Quarto command triggered.'')),
          previewQuartoDocument h] s"
| "step h (RenderStdout str) s = stdoutData str s"
| "step h (RenderStderr str) s = stderrData str s"
| "step h (RenderFinished format error) s = renderCallback format error s"
| "step h (InstallStdout str) s = stdoutData str s"
| "step h (InstallStderr str) s = stderrData str s"
| "step h (InstallFinished rest error stdout stderr) s =
     installCallback h rest error stdout stderr s"
| "step h (SetupResumed folder rest) s = setupResume h folder rest s"
| "step h (PreviewOutput p str) s = handleOutput p str s"
| "step h (PreviewClose code) s = previewOnClose code s"
| "step h (PreviewFailure err) s = previewOnError err s"

definition run_events :: "(host \<times> event) list \<Rightarrow> ext_state \<Rightarrow> ext_state" where
  "run_events evs s = foldl (\<lambda>s (h, e). step h e s) s evs"

section \<open>Vocabulary of the properties\<close>

definition added :: "(effect \<Rightarrow> bool) \<Rightarrow> ext_state \<Rightarrow> ext_state \<Rightarrow> bool" where
  \<comment> \<open>from \<open>s\<close> to \<open>s'\<close> the trace has only grown, and by effects that satisfy \<open>P\<close>\<close>
  "added P s s' =
     (take (length (trace s)) (trace s') = trace s
      \<and> list_all P (drop (length (trace s)) (trace s')))"

definition keeps :: "(effect \<Rightarrow> bool) \<Rightarrow> (ext_state \<Rightarrow> ext_state) \<Rightarrow> bool" where
  "keeps P f = (\<forall>s. added P s (f s))"

definition keepsA :: "(effect \<Rightarrow> bool) \<Rightarrow> 'a action \<Rightarrow> bool" where
  "keepsA P a = (\<forall>s. added P s (snd (a s)))"

definition workspace_scoped :: "effect \<Rightarrow> bool" where
  \<comment> \<open>not a settings update, or one whose target is the workspace\<close>
  "workspace_scoped e =
     (case e of ConfigUpdate sec res key v target \<Rightarrow> target = Workspace | _ \<Rightarrow> True)"

definition scoped_to :: "jsstring \<Rightarrow> effect \<Rightarrow> bool" where
  \<comment> \<open>not a settings update, or one on the configuration of the resource \<open>res\<close> whose
      target is the workspace\<close>
  "scoped_to res e =
     (case e of
        ConfigUpdate sec r key v target \<Rightarrow> r = res \<and> target = Workspace
      | _ \<Rightarrow> True)"

definition is_digit :: "jschar \<Rightarrow> bool" where
  "is_digit c = (48 \<le> c \<and> c \<le> 57)"

definition loopback_url :: "jsstring \<Rightarrow> bool" where
  \<comment> \<open>\<open>http://localhost:PORT\<close> or \<open>http://127.0.0.1:PORT\<close>, the port one or more digits\<close>
  "loopback_url u =
     (\<exists>port. port \<noteq> [] \<and> list_all is_digit port
        \<and> (u = js ''http://localhost:'' @ port \<or> u = js ''http://127.0.0.1:'' @ port))"

definition has_loopback_url :: "jsstring \<Rightarrow> bool" where
  "has_loopback_url str = (\<exists>pre u post. str = pre @ u @ post \<and> loopback_url u)"

fun opens :: "effect list \<Rightarrow> jsstring list" where
  \<comment> \<open>the addresses of the calls that open the embedded browser, in order\<close>
  "opens [] = []"
| "opens (OpenBrowser u # es) = u # opens es"
| "opens (e # es) = opens es"

definition feed :: "handle \<Rightarrow> jsstring list \<Rightarrow> ext_state \<Rightarrow> ext_state" where
  \<comment> \<open>the output chunks of the process \<open>p\<close>, delivered in order\<close>
  "feed p chunks s = foldl (\<lambda>s str. handleOutput p str s) s chunks"

definition spec_wrapper_script :: "bool \<Rightarrow> jsstring \<Rightarrow> jsstring \<Rightarrow> jsstring \<Rightarrow> jsstring" where
  \<comment> \<open>the wrapper script as the specification words it: after the first line of a batch
      file or of a shell script, a single command, whose words are the environment
      manager, its \<open>run\<close> subcommand, the manifest path and the environment name as
      fixed arguments, the tool, and the forwarding of the script's own arguments\<close>
  "spec_wrapper_script isWindows manifestPath envName tool =
     join_with nl
       [if isWindows then js ''@echo off'' else js ''#!/bin/sh'',
        join_with (js '' '')
          ((if isWindows then [] else [js ''exec''])
           @ [js ''pixi'', js ''run'', js ''--manifest-path'', quoted manifestPath,
              js ''-e'', envName, tool,
              if isWindows then js ''%*'' else js ''\"$@\"''])]"

definition workspace_manifest :: "host \<Rightarrow> jsstring \<Rightarrow> ext_state \<Rightarrow> jsstring" where
  \<comment> \<open>the manifest of the workspace: \<open>pixi.toml\<close> if it exists, \<open>pyproject.toml\<close>
      otherwise\<close>
  "workspace_manifest h workspacePath s =
     (if fs s (path_join h [workspacePath, js ''pixi.toml''])
      then path_join h [workspacePath, js ''pixi.toml'']
      else path_join h [workspacePath, js ''pyproject.toml''])"

definition wrapper_path :: "host \<Rightarrow> jsstring \<Rightarrow> jsstring \<Rightarrow> jsstring" where
  \<comment> \<open>where the wrapper called \<open>stem\<close> lies: in \<open>.vscode\<close>, a batch file on Windows
      and a shell script elsewhere\<close>
  "wrapper_path h workspacePath stem =
     path_join h [path_join h [workspacePath, js ''.vscode''],
                  stem @ (if platform h = js ''win32'' then js ''.bat'' else js ''.sh'')]"

definition wrapper_file ::
  "host \<Rightarrow> jsstring \<Rightarrow> jsstring \<Rightarrow> jsstring \<Rightarrow> jsstring \<Rightarrow> jsstring \<Rightarrow> bool" where
  \<comment> \<open>\<open>content\<close> written at \<open>path\<close> is a wrapper script of the workspace: the file is
      the wrapper of R or of Quarto, and it is worded as the specification says, for the
      manifest \<open>manifestPath\<close>\<close>
  "wrapper_file h workspacePath envName manifestPath path content =
     ((path = wrapper_path h workspacePath (js ''rterm-pixi-wrapper'')
       \<and> content = spec_wrapper_script (platform h = js ''win32'') manifestPath envName (js ''R''))
      \<or> (path = wrapper_path h workspacePath (js ''quarto-pixi-wrapper'')
          \<and> content =
              spec_wrapper_script (platform h = js ''win32'') manifestPath envName (js ''quarto'')))"

definition auxiliary_file :: "host \<Rightarrow> jsstring \<Rightarrow> jsstring \<Rightarrow> jsstring \<Rightarrow> jsstring \<Rightarrow> bool" where
  \<comment> \<open>\<open>content\<close> written at \<open>path\<close> is the activation hook of the workspace or, off
      Windows, one of the two shims in the environment\<close>
  "auxiliary_file h workspacePath prefix path content =
     ((path = path_join h [workspacePath, js ''.pixi-activate.sh'']
       \<and> content =
           js ''#!/bin/sh\<newline># Project-level pixi activation hook (intentionally empty)\<newline>'')
      \<or> (platform h \<noteq> js ''win32''
          \<and> path = path_join h [path_join h [prefix, js ''bin''], js ''conda'']
          \<and> content = condaShimContent)
      \<or> (platform h \<noteq> js ''win32''
          \<and> path = path_join h [path_join h [prefix, js ''bin''], js ''activate'']
          \<and> content = activateShimContent))"

definition generated_file ::
  "host \<Rightarrow> jsstring \<Rightarrow> jsstring \<Rightarrow> jsstring \<Rightarrow> jsstring \<Rightarrow> effect \<Rightarrow> bool" where
  "generated_file h workspacePath envName prefix manifestPath e =
     (case e of
        WriteFile path content \<Rightarrow>
          wrapper_file h workspacePath envName manifestPath path content
          \<or> auxiliary_file h workspacePath prefix path content
      | _ \<Rightarrow> True)"

fun writes :: "effect list \<Rightarrow> (jsstring \<times> jsstring) list" where
  \<comment> \<open>the files written, in order: path and content\<close>
  "writes [] = []"
| "writes (WriteFile path content # es) = (path, content) # writes es"
| "writes (e # es) = writes es"


definition returns :: "'a action \<Rightarrow> bool" where
  \<comment> \<open>the action throws in no state\<close>
  "returns a = (\<forall>s. \<exists>x s'. a s = (Returned x, s'))"

definition plain :: "effect \<Rightarrow> bool" where
  \<comment> \<open>a call that neither starts nor signals a process nor assigns \<open>previewProcess\<close>\<close>
  "plain e =
     (case e of Spawn p c a d \<Rightarrow> False | Kill p sig \<Rightarrow> False | Track v \<Rightarrow> False | _ \<Rightarrow> True)"

definition calmly :: "ext_state \<Rightarrow> ext_state \<Rightarrow> bool" where
  \<comment> \<open>from \<open>s\<close> to \<open>s'\<close> only plain calls were made and \<open>previewProcess\<close> is the same\<close>
  "calmly s s' = (added plain s s' \<and> previewProcess s' = previewProcess s)"

definition calm :: "(ext_state \<Rightarrow> ext_state) \<Rightarrow> bool" where
  "calm f = (\<forall>s. calmly s (f s))"

definition calmA :: "'a action \<Rightarrow> bool" where
  "calmA a = (\<forall>s. calmly s (snd (a s)))"

fun single_instance :: "handle option \<Rightarrow> effect list \<Rightarrow> bool" where
  \<comment> \<open>the calls are walked in order, \<open>cur\<close> being the handle tracked so far: a handle is
      assigned to \<open>previewProcess\<close> only while none is tracked, a process is spawned only
      while none is tracked, and a signal goes only to the tracked process\<close>
  "single_instance cur [] = True"
| "single_instance cur (Track v # es) = ((v = None \<or> cur = None) \<and> single_instance v es)"
| "single_instance cur (Spawn p c a d # es) = (cur = None \<and> single_instance cur es)"
| "single_instance cur (Kill p sig # es) = (cur = Some p \<and> single_instance cur es)"
| "single_instance cur (e # es) = single_instance cur es"

fun tracked_after :: "handle option \<Rightarrow> effect list \<Rightarrow> handle option" where
  \<comment> \<open>the handle tracked after the calls, \<open>cur\<close> being the one tracked before them\<close>
  "tracked_after cur [] = cur"
| "tracked_after cur (Track v # es) = tracked_after v es"
| "tracked_after cur (e # es) = tracked_after cur es"

definition orderly :: "ext_state \<Rightarrow> ext_state \<Rightarrow> bool" where
  \<comment> \<open>from \<open>s\<close> to \<open>s'\<close> the trace has only grown, the calls added keep to one tracked
      process at a time, and \<open>previewProcess\<close> is what they last assigned\<close>
  "orderly s s' =
     (take (length (trace s)) (trace s') = trace s
      \<and> single_instance (previewProcess s) (drop (length (trace s)) (trace s'))
      \<and> previewProcess s' = tracked_after (previewProcess s) (drop (length (trace s)) (trace s')))"

section \<open>A concrete workspace\<close>

text \<open>
  A Linux host with one workspace folder \<open>/w\<close> that holds a manifest, an open Quarto
  document, and the wrapper script already in place.
\<close>

definition linux_host :: host where
  "linux_host =
     \<lparr>platform = js ''linux'',
      path_join = join_with (js ''/''),
      path_basename = (\<lambda>p. rev (takeWhile (\<lambda>c. c \<noteq> 47) (rev p))),
      workspaceFolders = Some [\<lparr>fsPath = js ''/w'', folder_name = js ''w''\<rparr>],
      activeTextEditor =
        Some \<lparr>languageId = js ''quarto'', fileName = js ''/w/a.qmd'',
              uri = js ''file:///w/a.qmd''\<rparr>,
      getWorkspaceFolder = (\<lambda>u. Some \<lparr>fsPath = js ''/w'', folder_name = js ''w''\<rparr>),
      pixi_info = (\<lambda>d. Parsed (PixiInfo (Some
        [\<lparr>env_name = js ''dev'', env_prefix = Some (js ''/w/.pixi/envs/dev'')\<rparr>,
         \<lparr>env_name = js ''default'', env_prefix = Some (js ''/w/.pixi/envs/default'')\<rparr>]))),
      throws = (\<lambda>past e. None)\<rparr>"

definition start_state :: ext_state where
  "start_state =
     \<lparr>previewProcess = None,
      browserOpened = (\<lambda>p. False),
      spawned = 0,
      fs = (\<lambda>p. p = js ''/w/pixi.toml'' \<or> p = js ''/w/.vscode/quarto-pixi-wrapper.sh''),
      trace = []\<rparr>"

definition running_state :: ext_state where
  \<comment> \<open>after one preview request: process 0 is tracked\<close>
  "running_state = previewQuartoDocument linux_host start_state"

definition spawn_error :: js_error where
  "spawn_error =
     \<lparr>err_message = js ''spawn /bin/sh ENOENT'', err_display = js ''spawn /bin/sh ENOENT'',
      err_stderr = None\<rparr>"

definition escape_then_box :: jsstring where
  \<comment> \<open>cursor up two lines, then the box-drawing character U+2500, then \<open>ok\<close>\<close>
  "escape_then_box = [0x1b] @ js ''[2A'' @ [0x2500] @ js ''ok''"

definition server_chunks :: "jsstring list" where
  "server_chunks =
     [js ''Preparing to preview'',
      [0x1b] @ js ''[1mBrowse at http://127.0.0.1:4200/'' @ [0x2500],
      js ''Watching http://localhost:4200/ for changes'']"

definition env_dev :: environment where
  "env_dev = \<lparr>env_name = js ''dev'', env_prefix = Some (js ''/w/.pixi/envs/dev'')\<rparr>"

definition env_default :: environment where
  "env_default = \<lparr>env_name = js ''default'', env_prefix = Some (js ''/w/.pixi/envs/default'')\<rparr>"

definition env_test :: environment where
  "env_test = \<lparr>env_name = js ''test'', env_prefix = None\<rparr>"

definition folder_v :: folder where
  "folder_v = \<lparr>fsPath = js ''/v'', folder_name = js ''v''\<rparr>"

definition folder_w :: folder where
  "folder_w = \<lparr>fsPath = js ''/w'', folder_name = js ''w''\<rparr>"

definition two_folder_host :: host where
  \<comment> \<open>a second workspace folder, \<open>/v\<close>, without a manifest, comes first\<close>
  "two_folder_host = linux_host\<lparr>workspaceFolders := Some [folder_v, folder_w]\<rparr>"

definition no_prefix_host :: host where
  \<comment> \<open>the environment manager lists an environment without a prefix first, and none is
      named \<open>default\<close>\<close>
  "no_prefix_host =
     linux_host\<lparr>pixi_info := (\<lambda>d. Parsed (PixiInfo (Some [env_test, env_dev])))\<rparr>"

definition windows_host :: host where
  \<comment> \<open>the same workspace on Windows, its paths written with forward slashes\<close>
  "windows_host = linux_host\<lparr>platform := js ''win32''\<rparr>"

definition pyproject_state :: ext_state where
  \<comment> \<open>the workspace holds \<open>pyproject.toml\<close> and no \<open>pixi.toml\<close>\<close>
  "pyproject_state = start_state\<lparr>fs := (\<lambda>p. p = js ''/w/pyproject.toml'')\<rparr>"

definition both_manifests_state :: ext_state where
  \<comment> \<open>both folders of \<open>two_folder_host\<close> hold a manifest\<close>
  "both_manifests_state =
     start_state\<lparr>fs := (\<lambda>p. p = js ''/v/pixi.toml'' \<or> p = js ''/w/pixi.toml'')\<rparr>"


section \<open>Properties\<close>

subsection \<open>Basic facts\<close>

lemma run_simps: "run [] s = s" "run (f # gs) s = run gs (f s)"
  by (simp_all add: run_def)

lemma emit_fields [simp]:
  "trace (emit e s) = trace s @ [e]"
  "previewProcess (emit e s) = previewProcess s"
  "browserOpened (emit e s) = browserOpened s"
  "spawned (emit e s) = spawned s"
  "fs (emit e s) = fs s"
  by (simp_all add: emit_def)

lemma track_fields [simp]:
  "trace (track v s) = trace s @ [Track v]"
  "previewProcess (track v s) = v"
  "browserOpened (track v s) = browserOpened s"
  "spawned (track v s) = spawned s"
  "fs (track v s) = fs s"
  by (simp_all add: track_def)

lemma added_iff: "added P s s' \<longleftrightarrow> (\<exists>es. trace s' = trace s @ es \<and> list_all P es)"
  unfolding added_def
  by (metis append_eq_conv_conj)

lemma added_refl [simp]: "added P s s"
  by (simp add: added_iff)

lemma added_trans: "added P s t \<Longrightarrow> added P t u \<Longrightarrow> added P s u"
  by (auto simp: added_iff)

lemma added_emit: "P e \<Longrightarrow> added P s (emit e s)"
  by (simp add: added_iff)

lemma added_invariant: "added P s s' \<Longrightarrow> list_all P (trace s) \<Longrightarrow> list_all P (trace s')"
  by (auto simp: added_iff)

lemma keeps_emit: "P e \<Longrightarrow> keeps P (emit e)"
  by (simp add: keeps_def added_emit)

lemma keeps_id: "keeps P id" "keeps P (\<lambda>s. s)"
  by (simp_all add: keeps_def)

lemma keeps_track: "P (Track v) \<Longrightarrow> keeps P (track v)"
  by (simp add: keeps_def added_iff)

lemma keeps_untraced: "(\<And>s. trace (f s) = trace s) \<Longrightarrow> keeps P f"
  by (simp add: keeps_def added_iff)

lemma keeps_run: "list_all (keeps P) gs \<Longrightarrow> keeps P (run gs)"
proof (induction gs)
  case Nil
  then show ?case by (simp add: keeps_def run_simps)
next
  case (Cons f gs)
  then show ?case
    by (auto simp: keeps_def run_simps intro: added_trans)
qed

lemma keeps_foldl:
  assumes "\<And>x. x \<in> set xs \<Longrightarrow> keeps P (\<lambda>s. f s x)"
  shows "keeps P (\<lambda>s. foldl f s xs)"
  using assms
proof (induction xs rule: rev_induct)
  case Nil
  then show ?case by (simp add: keeps_def)
next
  case (snoc x xs)
  then show ?case
    by (auto simp: keeps_def intro: added_trans)
qed

lemma keepsA_attempt: "P e \<Longrightarrow> keepsA P (attempt h e)"
  by (cases e) (auto simp: keepsA_def attempt_def added_iff split: option.split)

lemma keepsA_pure: "keeps P f \<Longrightarrow> keepsA P (pure f)"
  by (simp add: keepsA_def keeps_def pure_def)

lemma keepsA_return: "keepsA P (\<lambda>s. (r, s))"
  by (simp add: keepsA_def)

lemma keepsA_andThen:
  assumes "keepsA P m" and "\<And>a. keepsA P (k a)"
  shows "keepsA P (andThen m k)"
  unfolding keepsA_def
proof
  fix s
  show "added P s (snd (andThen m k s))"
  proof (cases "m s")
    case (Pair r s')
    with assms(1) have a: "added P s s'"
      by (auto simp: keepsA_def dest: spec [of _ s])
    show ?thesis
    proof (cases r)
      case (Returned x)
      with Pair a assms(2) [of x] show ?thesis
        by (auto simp: andThen_def keepsA_def intro: added_trans)
    next
      case (Thrown err)
      with Pair a show ?thesis by (simp add: andThen_def)
    qed
  qed
qed

lemma keepsA_sequence: "list_all (keepsA P) as \<Longrightarrow> keepsA P (sequence as)"
proof (induction as)
  case Nil
  then show ?case by (simp add: keepsA_def)
next
  case (Cons a as)
  show ?case
    unfolding keepsA_def
  proof
    fix s
    obtain r s' where m: "a s = (r, s')" by (cases "a s")
    with Cons.prems have a: "added P s s'"
      by (auto simp: keepsA_def dest: spec [of _ s])
    from Cons have "keepsA P (sequence as)" by simp
    then have "added P s' (snd (sequence as s'))" by (simp add: keepsA_def)
    with a m show "added P s (snd (sequence (a # as) s))"
      by (cases r) (auto intro: added_trans)
  qed
qed

lemma keepsA_only_if: "(c \<Longrightarrow> keepsA P a) \<Longrightarrow> keepsA P (only_if c a)"
  by (simp add: only_if_def keepsA_pure keeps_id)

lemma keepsA_existsSync: "(\<And>found. keepsA P (k found)) \<Longrightarrow> keepsA P (existsSync path k)"
  by (simp add: keepsA_def existsSync_def)

lemma keeps_try_catch:
  assumes "keepsA P a" and "\<And>err. keeps P (handler err)"
  shows "keeps P (try_catch a handler)"
  unfolding keeps_def
proof
  fix s
  obtain r s' where m: "a s = (r, s')" by (cases "a s")
  with assms(1) have a: "added P s s'"
    by (auto simp: keepsA_def dest: spec [of _ s])
  show "added P s (try_catch a handler s)"
  proof (cases r)
    case (Returned u)
    with m a show ?thesis by (simp add: try_catch_def)
  next
    case (Thrown err)
    with m a assms(2) [of err] show ?thesis
      by (auto simp: try_catch_def keeps_def intro: added_trans)
  qed
qed

lemma keeps_cond:
  "keeps P f \<Longrightarrow> keeps P g \<Longrightarrow> keeps P (\<lambda>s. if c s then f s else g s)"
  by (simp add: keeps_def)

lemma keeps_case_option:
  "keeps P a \<Longrightarrow> (\<And>x. keeps P (b x)) \<Longrightarrow> keeps P (case v of None \<Rightarrow> a | Some x \<Rightarrow> b x)"
  by (cases v) simp_all

lemma keeps_snd: "keepsA P a \<Longrightarrow> keeps P (\<lambda>s. snd (a s))"
  by (simp add: keeps_def keepsA_def)

lemmas keeps_rules =
  keeps_emit keeps_id keeps_track keeps_run keepsA_attempt keepsA_pure keepsA_return
  keepsA_andThen keepsA_sequence keepsA_only_if keepsA_existsSync keeps_try_catch keeps_cond
  keeps_case_option

lemma running_state_tracks: "previewProcess running_state = Some 0"
  by (simp add: running_state_def previewQuartoDocument_def linux_host_def start_state_def
      quartoWrapper_def endsWith_def js_def Let_def run_simps)

subsection \<open>No operation updates settings outside the workspace\<close>

lemma ws_simps [simp]:
  "workspace_scoped (AppendLine x)"
  "workspace_scoped (Append x)"
  "workspace_scoped ShowChannel"
  "workspace_scoped (InformationMessage x)"
  "workspace_scoped (WarningMessage x)"
  "workspace_scoped (ErrorMessage x)"
  "workspace_scoped (Progress x)"
  "workspace_scoped (QuickPick xs)"
  "workspace_scoped (Exec c d)"
  "workspace_scoped (Spawn n c a d)"
  "workspace_scoped (Kill n sig)"
  "workspace_scoped (Track tv)"
  "workspace_scoped (OpenBrowser u)"
  "workspace_scoped (Mkdir p)"
  "workspace_scoped (WriteFile p c)"
  "workspace_scoped (Chmod p m)"
  "workspace_scoped (ConfigUpdate sec res key v target) = (target = Workspace)"
  by (simp_all add: workspace_scoped_def)

lemma ws_createWrapperScripts:
  "keepsA workspace_scoped (createWrapperScripts h workspacePath envName prefix)"
  unfolding createWrapperScripts_def Let_def
  by (simp add: keeps_rules)

lemma ws_configure:
  "keeps workspace_scoped (configureWorkspaceSettings h folder a b c)"
  unfolding configureWorkspaceSettings_def Let_def
  by (simp add: keeps_rules)

lemma ws_getPixiInfoStart: "keeps workspace_scoped (getPixiInfoStart d)"
  unfolding getPixiInfoStart_def
  by (simp add: keeps_rules)

lemma ws_getPixiInfoCallback: "keepsA workspace_scoped (getPixiInfoCallback h d)"
  by (auto simp: keepsA_def getPixiInfoCallback_def added_iff split: pixi_reply.split)

lemma ws_getPixiInfo: "keepsA workspace_scoped (getPixiInfo h d)"
  using ws_getPixiInfoStart [of d] ws_getPixiInfoCallback [of h d]
  by (auto simp: keepsA_def keeps_def getPixiInfo_def intro: added_trans)

lemma ws_setupWithInfo: "keepsA workspace_scoped (setupWithInfo h folder pixiInfo)"
  unfolding setupWithInfo_def
  by (simp add: keeps_rules ws_createWrapperScripts ws_configure
      split: pixi_info.split option.split)

lemma ws_setupFromInfo: "keepsA workspace_scoped (setupFromInfo h folder)"
  unfolding setupFromInfo_def
  by (simp add: keeps_rules ws_getPixiInfo ws_setupWithInfo)

lemma ws_setupFailed: "keeps workspace_scoped (setupFailed error)"
  unfolding setupFailed_def
  by (simp add: keeps_rules split: option.split)

lemma ws_setupFolder: "keeps workspace_scoped (setupFolder h folder)"
  unfolding setupFolder_def Let_def
  by (simp add: keeps_rules ws_setupFromInfo ws_setupFailed)

lemma ws_setupPixiEnvironment: "keeps workspace_scoped (setupPixiEnvironment h)"
proof (cases "workspaceFolders h")
  case None
  then show ?thesis
    by (simp add: keeps_def setupPixiEnvironment_def added_emit)
next
  case (Some folders)
  have "keeps workspace_scoped (\<lambda>s. foldl (\<lambda>s folder. setupFolder h folder s) s folders)"
    by (rule keeps_foldl) (rule ws_setupFolder)
  with Some show ?thesis
    by (simp add: keeps_def setupPixiEnvironment_def)
qed

lemma ws_direct:
  "keeps workspace_scoped (previewQuartoDocument h)"
  "keeps workspace_scoped (renderQuartoDocument h format)"
  "keeps workspace_scoped (handleOutput p str)"
  "keeps workspace_scoped (previewOnClose code)"
  "keeps workspace_scoped (previewOnError err)"
  "keeps workspace_scoped deactivate"
  "keeps workspace_scoped (stdoutData str)"
  "keeps workspace_scoped (stderrData str)"
  "keeps workspace_scoped (renderCallback format error)"
  by (auto simp: keeps_def added_iff previewQuartoDocument_def renderQuartoDocument_def
      handleOutput_def previewOnClose_def previewOnError_def deactivate_def stdoutData_def
      stderrData_def renderCallback_def Let_def run_simps split: option.split)

lemma ws_renderWithFormat: "keeps workspace_scoped (renderQuartoDocumentWithFormat h picked)"
  unfolding keeps_def
proof
  fix s
  have a: "added workspace_scoped s (emit (QuickPick (map fst formats)) s)"
    by (simp add: added_emit)
  have b: "\<And>f t. added workspace_scoped t (renderQuartoDocument h f t)"
    using ws_direct(2) by (simp add: keeps_def)
  show "added workspace_scoped s (renderQuartoDocumentWithFormat h picked s)"
    using a added_trans [OF a b]
    by (simp add: renderQuartoDocumentWithFormat_def Let_def split: option.split)
qed

lemma keeps_apply: "keeps P f \<Longrightarrow> added P s t \<Longrightarrow> added P s (f t)"
  by (auto simp: keeps_def intro: added_trans)

lemma ws_setupUntilAwait: "added workspace_scoped s (snd (setupUntilAwait h folders s))"
proof (induction folders arbitrary: s)
  case Nil
  then show ?case by simp
next
  case (Cons folder rest)
  let ?s1 = "emit (AppendLine
               (js ''Checking for pixi.toml or pyproject.toml at: '' @ fsPath folder)) s"
  have a: "added workspace_scoped s ?s1"
    by (simp add: added_emit)
  have b: "keeps workspace_scoped
             (run [emit (AppendLine (js ''Found Pixi manifest in '' @ folder_name folder)),
                   getPixiInfoStart (fsPath folder)])"
    by (simp add: keeps_rules ws_getPixiInfoStart)
  have c: "added workspace_scoped s
             (emit (AppendLine (js ''No pixi.toml found in '' @ folder_name folder)) ?s1)"
    by (rule keeps_apply [OF _ a]) (simp add: keeps_rules)
  show ?case
    using keeps_apply [OF b a] added_trans [OF c Cons.IH]
    by (simp add: Let_def)
qed

lemma ws_setupStart: "keeps workspace_scoped (\<lambda>s. snd (setupStart h s))"
  by (simp add: keeps_def setupStart_def ws_setupUntilAwait added_emit split: option.split)

lemma ws_setupResume: "keeps workspace_scoped (setupResume h folder rest)"
proof -
  have a: "keeps workspace_scoped
             (try_catch (andThen (getPixiInfoCallback h (fsPath folder))
                (setupWithInfo h folder)) setupFailed)"
    by (simp add: keeps_rules ws_getPixiInfoCallback ws_setupWithInfo ws_setupFailed)
  have b: "keeps workspace_scoped (\<lambda>s. foldl (\<lambda>s folder. setupFolder h folder s) s rest)"
    by (rule keeps_foldl) (rule ws_setupFolder)
  show ?thesis
    using a b
    by (auto simp: keeps_def setupResume_def intro: added_trans)
qed

lemma ws_installFrom: "added workspace_scoped s (installFrom h folders s)"
proof (induction folders arbitrary: s)
  case Nil
  then show ?case by simp
next
  case (Cons folder rest)
  have a: "keeps workspace_scoped
             (run [emit (Progress
                     (js ''Installing R and Quarto via Pixi in '' @ folder_name folder
                      @ js ''...'')),
                   emit (AppendLine
                     (js ''Executing 'pixi add r-base r-languageserver quarto -c conda-forge' in ''
                      @ fsPath folder)),
                   emit (Exec (js ''pixi add r-base r-languageserver quarto -c conda-forge'')
                     (fsPath folder))])"
    by (simp add: keeps_rules)
  have b: "added workspace_scoped s
             (emit (WarningMessage
                (js ''No pixi.toml or pyproject.toml found in the workspace.'')) s)"
    by (simp add: added_emit)
  show ?case
    using keeps_apply [OF a added_refl, of s] added_trans [OF b Cons.IH]
    by (simp add: Let_def)
qed

lemma ws_installPixiDependencies: "keeps workspace_scoped (installPixiDependencies h)"
  by (simp add: keeps_def installPixiDependencies_def ws_installFrom added_emit
      split: option.split)

lemma ws_installCallback:
  "keeps workspace_scoped (installCallback h rest error stdout stderr)"
proof -
  have "keeps workspace_scoped (installFrom h rest)"
    by (simp add: keeps_def ws_installFrom)
  then have "keeps workspace_scoped (\<lambda>s. installCallback h rest error stdout stderr s)"
    unfolding installCallback_def
    by (cases error) (simp_all add: keeps_rules ws_setupStart)
  then show ?thesis .
qed

lemma ws_step: "keeps workspace_scoped (step h e)"
proof -
  have "keeps workspace_scoped (\<lambda>s. step h e s)"
    by (cases e)
      (simp_all add: keeps_rules ws_direct ws_setupPixiEnvironment ws_installPixiDependencies
        ws_renderWithFormat ws_installCallback ws_setupResume)
  then show ?thesis .
qed

lemma ws_run_events:
  "list_all workspace_scoped (trace s) \<Longrightarrow> list_all workspace_scoped (trace (run_events evs s))"
proof (induction evs arbitrary: s)
  case Nil
  then show ?case by (simp add: run_events_def)
next
  case (Cons ev evs)
  obtain h e where ev: "ev = (h, e)" by (cases ev)
  from ws_step [of h e] Cons.prems have "list_all workspace_scoped (trace (step h e s))"
    by (auto simp: keeps_def dest: added_invariant)
  from Cons.IH [OF this] ev show ?case
    by (simp add: run_events_def)
qed

lemma scoped_to_simps [simp]:
  "scoped_to res (AppendLine x)"
  "scoped_to res (ConfigUpdate sec r key v target) = (r = res \<and> target = Workspace)"
  by (simp_all add: scoped_to_def)

lemma configure_scoped_to_folder:
  "keeps (scoped_to (fsPath folder)) (configureWorkspaceSettings h folder a b c)"
  unfolding configureWorkspaceSettings_def Let_def
  by (simp add: keeps_rules)

text \<open>
  Claim C10. Every settings update that \<open>configureWorkspaceSettings\<close> makes is an update
  of the given folder's configuration with the target \<open>Workspace\<close>. Over any sequence of
  activations, commands and process events, on any hosts, every settings update in the
  trace has the target \<open>Workspace\<close> if those already in the trace had: no operation of
  the extension updates a setting with the target \<open>Global\<close> or \<open>WorkspaceFolder\<close>.
\<close>

theorem settings_updates_target_workspace:
  "added (scoped_to (fsPath folder)) s
     (configureWorkspaceSettings h folder rPath rTermPath quartoPath s)
   \<and> (list_all workspace_scoped (trace s)
        \<longrightarrow> list_all workspace_scoped (trace (run_events evs s)))"
  using configure_scoped_to_folder [of folder h rPath rTermPath quartoPath]
    ws_run_events [of s evs]
  by (simp add: keeps_def)

theorem settings_updates_target_workspace_witness:
  "list_all workspace_scoped (trace start_state)
   \<and> list_all workspace_scoped
        (trace (run_events [(linux_host, Activate), (linux_host, InstallCommand),
                            (linux_host, SetupCommand)] start_state))
   \<and> list_all (scoped_to (js ''/w''))
        (trace (configureWorkspaceSettings linux_host
                  \<lparr>fsPath = js ''/w'', folder_name = js ''w''\<rparr>
                  (js ''/p/bin/R'') (js ''/w/.vscode/rterm-pixi-wrapper.sh'')
                  (js ''/w/.vscode/quarto-pixi-wrapper.sh'') start_state))
   \<and> ConfigUpdate (js ''quarto'') (js ''/w'') (js ''path'')
        (js ''/w/.vscode/quarto-pixi-wrapper.sh'') Workspace
       \<in> set (trace (configureWorkspaceSettings linux_host
                  \<lparr>fsPath = js ''/w'', folder_name = js ''w''\<rparr>
                  (js ''/p/bin/R'') (js ''/w/.vscode/rterm-pixi-wrapper.sh'')
                  (js ''/w/.vscode/quarto-pixi-wrapper.sh'') start_state))"
proof -
  have t: "trace start_state = []"
    by (simp add: start_state_def)
  have c: "ConfigUpdate (js ''quarto'') (js ''/w'') (js ''path'')
        (js ''/w/.vscode/quarto-pixi-wrapper.sh'') Workspace
       \<in> set (trace (configureWorkspaceSettings linux_host
                  \<lparr>fsPath = js ''/w'', folder_name = js ''w''\<rparr>
                  (js ''/p/bin/R'') (js ''/w/.vscode/rterm-pixi-wrapper.sh'')
                  (js ''/w/.vscode/quarto-pixi-wrapper.sh'') start_state))"
    by code_simp
  from t c
    settings_updates_target_workspace
      [of "\<lparr>fsPath = js ''/w'', folder_name = js ''w''\<rparr>" start_state linux_host
        "js ''/p/bin/R''" "js ''/w/.vscode/rterm-pixi-wrapper.sh''"
        "js ''/w/.vscode/quarto-pixi-wrapper.sh''"
        "[(linux_host, Activate), (linux_host, InstallCommand), (linux_host, SetupCommand)]"]
  show ?thesis
    by (simp add: added_def)
qed

subsection \<open>The preview supervisor\<close>

lemma calmly_refl [simp]: "calmly s s"
  by (simp add: calmly_def)

lemma calmly_trans: "calmly s t \<Longrightarrow> calmly t u \<Longrightarrow> calmly s u"
  by (auto simp: calmly_def intro: added_trans)

lemma calmly_emit: "plain e \<Longrightarrow> calmly s (emit e s)"
  by (simp add: calmly_def added_emit)

lemma calm_emit: "plain e \<Longrightarrow> calm (emit e)"
  by (simp add: calm_def calmly_emit)

lemma calm_id: "calm id" "calm (\<lambda>s. s)"
  by (simp_all add: calm_def)

lemma calm_run: "list_all calm gs \<Longrightarrow> calm (run gs)"
proof (induction gs)
  case Nil
  then show ?case by (simp add: calm_def run_simps)
next
  case (Cons f gs)
  then show ?case
    by (auto simp: calm_def run_simps intro: calmly_trans)
qed

lemma calm_foldl:
  assumes "\<And>x. x \<in> set xs \<Longrightarrow> calm (\<lambda>s. f s x)"
  shows "calm (\<lambda>s. foldl f s xs)"
  using assms
proof (induction xs rule: rev_induct)
  case Nil
  then show ?case by (simp add: calm_def)
next
  case (snoc x xs)
  then show ?case
    by (auto simp: calm_def intro: calmly_trans)
qed

lemma calmA_attempt: "plain e \<Longrightarrow> calmA (attempt h e)"
  by (cases e) (auto simp: calmA_def calmly_def attempt_def added_iff split: option.split)

lemma calmA_pure: "calm f \<Longrightarrow> calmA (pure f)"
  by (simp add: calmA_def calm_def pure_def)

lemma calmA_return: "calmA (\<lambda>s. (r, s))"
  by (simp add: calmA_def)

lemma calmA_andThen:
  assumes "calmA m" and "\<And>a. calmA (k a)"
  shows "calmA (andThen m k)"
  unfolding calmA_def
proof
  fix s
  show "calmly s (snd (andThen m k s))"
  proof (cases "m s")
    case (Pair r s')
    with assms(1) have a: "calmly s s'"
      by (auto simp: calmA_def dest: spec [of _ s])
    show ?thesis
    proof (cases r)
      case (Returned x)
      with Pair a assms(2) [of x] show ?thesis
        by (auto simp: andThen_def calmA_def intro: calmly_trans)
    next
      case (Thrown err)
      with Pair a show ?thesis by (simp add: andThen_def)
    qed
  qed
qed

lemma calmA_sequence: "list_all calmA as \<Longrightarrow> calmA (sequence as)"
proof (induction as)
  case Nil
  then show ?case by (simp add: calmA_def)
next
  case (Cons a as)
  show ?case
    unfolding calmA_def
  proof
    fix s
    obtain r s' where m: "a s = (r, s')" by (cases "a s")
    with Cons.prems have a: "calmly s s'"
      by (auto simp: calmA_def dest: spec [of _ s])
    from Cons have "calmA (sequence as)" by simp
    then have "calmly s' (snd (sequence as s'))" by (simp add: calmA_def)
    with a m show "calmly s (snd (sequence (a # as) s))"
      by (cases r) (auto intro: calmly_trans)
  qed
qed

lemma calmA_only_if: "(c \<Longrightarrow> calmA a) \<Longrightarrow> calmA (only_if c a)"
  by (simp add: only_if_def calmA_pure calm_id)

lemma calmA_existsSync: "(\<And>found. calmA (k found)) \<Longrightarrow> calmA (existsSync path k)"
  by (simp add: calmA_def existsSync_def)

lemma calm_try_catch:
  assumes "calmA a" and "\<And>err. calm (handler err)"
  shows "calm (try_catch a handler)"
  unfolding calm_def
proof
  fix s
  obtain r s' where m: "a s = (r, s')" by (cases "a s")
  with assms(1) have a: "calmly s s'"
    by (auto simp: calmA_def dest: spec [of _ s])
  show "calmly s (try_catch a handler s)"
  proof (cases r)
    case (Returned u)
    with m a show ?thesis by (simp add: try_catch_def)
  next
    case (Thrown err)
    with m a assms(2) [of err] show ?thesis
      by (auto simp: try_catch_def calm_def intro: calmly_trans)
  qed
qed

lemma calm_cond:
  "calm f \<Longrightarrow> calm g \<Longrightarrow> calm (\<lambda>s. if c s then f s else g s)"
  by (simp add: calm_def)

lemma calm_case_option:
  "calm a \<Longrightarrow> (\<And>x. calm (b x)) \<Longrightarrow> calm (case v of None \<Rightarrow> a | Some x \<Rightarrow> b x)"
  by (cases v) simp_all

lemma calm_apply: "calm f \<Longrightarrow> calmly s t \<Longrightarrow> calmly s (f t)"
  by (auto simp: calm_def intro: calmly_trans)

lemmas calm_rules =
  calm_emit calm_id calm_run calmA_attempt calmA_pure calmA_return
  calmA_andThen calmA_sequence calmA_only_if calmA_existsSync calm_try_catch calm_cond
  calm_case_option

lemma plain_simps [simp]:
  "plain (AppendLine x)"
  "plain (Append x)"
  "plain ShowChannel"
  "plain (InformationMessage x)"
  "plain (WarningMessage x)"
  "plain (ErrorMessage x)"
  "plain (Progress x)"
  "plain (QuickPick xs)"
  "plain (Exec c d)"
  "\<not> plain (Spawn n c a d)"
  "\<not> plain (Kill n sig)"
  "\<not> plain (Track tv)"
  "plain (OpenBrowser u)"
  "plain (Mkdir p)"
  "plain (WriteFile p c)"
  "plain (Chmod p m)"
  "plain (ConfigUpdate sec res key v target)"
  by (simp_all add: plain_def)

lemma calm_createWrapperScripts:
  "calmA (createWrapperScripts h workspacePath envName prefix)"
  unfolding createWrapperScripts_def Let_def
  by (simp add: calm_rules)

lemma calm_configure:
  "calm (configureWorkspaceSettings h folder a b c)"
  unfolding configureWorkspaceSettings_def Let_def
  by (simp add: calm_rules)

lemma calm_getPixiInfoStart: "calm (getPixiInfoStart d)"
  unfolding getPixiInfoStart_def
  by (simp add: calm_rules)

lemma calm_getPixiInfoCallback: "calmA (getPixiInfoCallback h d)"
  by (auto simp: calmA_def getPixiInfoCallback_def calmly_emit split: pixi_reply.split)

lemma calm_getPixiInfo: "calmA (getPixiInfo h d)"
  using calm_getPixiInfoStart [of d] calm_getPixiInfoCallback [of h d]
  by (auto simp: calmA_def calm_def getPixiInfo_def intro: calmly_trans)

lemma calm_setupWithInfo: "calmA (setupWithInfo h folder pixiInfo)"
  unfolding setupWithInfo_def
  by (simp add: calm_rules calm_createWrapperScripts calm_configure
      split: pixi_info.split option.split)

lemma calm_setupFromInfo: "calmA (setupFromInfo h folder)"
  unfolding setupFromInfo_def
  by (simp add: calm_rules calm_getPixiInfo calm_setupWithInfo)

lemma calm_setupFailed: "calm (setupFailed error)"
  unfolding setupFailed_def
  by (simp add: calm_rules split: option.split)

lemma calm_setupFolder: "calm (setupFolder h folder)"
  unfolding setupFolder_def Let_def
  by (simp add: calm_rules calm_setupFromInfo calm_setupFailed)

lemma calm_setupPixiEnvironment: "calm (setupPixiEnvironment h)"
proof (cases "workspaceFolders h")
  case None
  then show ?thesis
    by (simp add: calm_def setupPixiEnvironment_def calmly_emit)
next
  case (Some folders)
  have "calm (\<lambda>s. foldl (\<lambda>s folder. setupFolder h folder s) s folders)"
    by (rule calm_foldl) (rule calm_setupFolder)
  with Some show ?thesis
    by (simp add: calm_def setupPixiEnvironment_def)
qed

lemma calm_setupUntilAwait: "calmly s (snd (setupUntilAwait h folders s))"
proof (induction folders arbitrary: s)
  case Nil
  then show ?case by simp
next
  case (Cons folder rest)
  let ?s1 = "emit (AppendLine
               (js ''Checking for pixi.toml or pyproject.toml at: '' @ fsPath folder)) s"
  have a: "calmly s ?s1"
    by (simp add: calmly_emit)
  have b: "calm
             (run [emit (AppendLine (js ''Found Pixi manifest in '' @ folder_name folder)),
                   getPixiInfoStart (fsPath folder)])"
    by (simp add: calm_rules calm_getPixiInfoStart)
  have c: "calmly s
             (emit (AppendLine (js ''No pixi.toml found in '' @ folder_name folder)) ?s1)"
    by (rule calm_apply [OF _ a]) (simp add: calm_rules)
  show ?case
    using calm_apply [OF b a] calmly_trans [OF c Cons.IH]
    by (simp add: Let_def)
qed

lemma calm_setupStart: "calm (\<lambda>s. snd (setupStart h s))"
  by (simp add: calm_def setupStart_def calm_setupUntilAwait calmly_emit split: option.split)

lemma calm_setupResume: "calm (setupResume h folder rest)"
proof -
  have a: "calm
             (try_catch (andThen (getPixiInfoCallback h (fsPath folder))
                (setupWithInfo h folder)) setupFailed)"
    by (simp add: calm_rules calm_getPixiInfoCallback calm_setupWithInfo calm_setupFailed)
  have b: "calm (\<lambda>s. foldl (\<lambda>s folder. setupFolder h folder s) s rest)"
    by (rule calm_foldl) (rule calm_setupFolder)
  show ?thesis
    using a b
    by (auto simp: calm_def setupResume_def intro: calmly_trans)
qed

lemma calm_installFrom: "calmly s (installFrom h folders s)"
proof (induction folders arbitrary: s)
  case Nil
  then show ?case by simp
next
  case (Cons folder rest)
  have a: "calm
             (run [emit (Progress
                     (js ''Installing R and Quarto via Pixi in '' @ folder_name folder
                      @ js ''...'')),
                   emit (AppendLine
                     (js ''Executing 'pixi add r-base r-languageserver quarto -c conda-forge' in ''
                      @ fsPath folder)),
                   emit (Exec (js ''pixi add r-base r-languageserver quarto -c conda-forge'')
                     (fsPath folder))])"
    by (simp add: calm_rules)
  have b: "calmly s
             (emit (WarningMessage
                (js ''No pixi.toml or pyproject.toml found in the workspace.'')) s)"
    by (simp add: calmly_emit)
  show ?case
    using calm_apply [OF a calmly_refl, of s] calmly_trans [OF b Cons.IH]
    by (simp add: Let_def)
qed

lemma calm_installPixiDependencies: "calm (installPixiDependencies h)"
  by (simp add: calm_def installPixiDependencies_def calm_installFrom calmly_emit
      split: option.split)

lemma calm_installCallback:
  "calm (installCallback h rest error stdout stderr)"
proof -
  have "calm (installFrom h rest)"
    by (simp add: calm_def calm_installFrom)
  then have "calm (\<lambda>s. installCallback h rest error stdout stderr s)"
    unfolding installCallback_def
    by (cases error) (simp_all add: calm_rules calm_setupStart)
  then show ?thesis .
qed

lemma calm_direct:
  "calm (renderQuartoDocument h format)"
  "calm (handleOutput p str)"
  "calm (previewOnError err)"
  "calm (stdoutData str)"
  "calm (stderrData str)"
  "calm (renderCallback format error)"
  by (auto simp: calm_def calmly_def added_iff renderQuartoDocument_def
      handleOutput_def previewOnError_def stdoutData_def
      stderrData_def renderCallback_def Let_def run_simps split: option.split)

lemma calm_renderWithFormat: "calm (renderQuartoDocumentWithFormat h picked)"
  unfolding calm_def
proof
  fix s
  have a: "calmly s (emit (QuickPick (map fst formats)) s)"
    by (simp add: calmly_emit)
  have b: "\<And>f t. calmly t (renderQuartoDocument h f t)"
    using calm_direct(1) by (simp add: calm_def)
  show "calmly s (renderQuartoDocumentWithFormat h picked s)"
    using a calmly_trans [OF a b]
    by (simp add: renderQuartoDocumentWithFormat_def Let_def split: option.split)
qed

lemma tracked_after_append:
  "tracked_after cur (xs @ ys) = tracked_after (tracked_after cur xs) ys"
  by (induction cur xs rule: tracked_after.induct) simp_all

lemma single_instance_append:
  "single_instance cur (xs @ ys)
     = (single_instance cur xs \<and> single_instance (tracked_after cur xs) ys)"
  by (induction cur xs rule: single_instance.induct) auto

lemma plain_single_instance:
  "list_all plain es \<Longrightarrow> single_instance cur es \<and> tracked_after cur es = cur"
  by (induction cur es rule: single_instance.induct) simp_all

lemma orderly_iff:
  "orderly s s' \<longleftrightarrow>
     (\<exists>es. trace s' = trace s @ es \<and> single_instance (previewProcess s) es
        \<and> previewProcess s' = tracked_after (previewProcess s) es)"
  unfolding orderly_def
  by (metis append_eq_conv_conj)

lemma orderly_refl [simp]: "orderly s s"
  by (simp add: orderly_iff)

lemma orderly_trans: "orderly s t \<Longrightarrow> orderly t u \<Longrightarrow> orderly s u"
  by (auto simp: orderly_iff single_instance_append tracked_after_append)

lemma calmly_orderly: "calmly s s' \<Longrightarrow> orderly s s'"
  by (auto simp: calmly_def added_iff orderly_iff plain_single_instance)

lemma orderly_supervisor:
  "orderly s (previewQuartoDocument h s)"
  "orderly s (previewOnClose code s)"
  "orderly s (deactivate s)"
  by (auto simp: orderly_iff previewQuartoDocument_def previewOnClose_def deactivate_def
      Let_def run_simps split: option.split)

lemma orderly_step: "orderly s (step h e s)"
proof (cases "e = PreviewCommand \<or> e = Deactivate \<or> (\<exists>code. e = PreviewClose code)")
  case True
  have "orderly s (emit (AppendLine (js ''Preview Quarto command triggered.'')) s)"
    by (simp add: calmly_orderly calmly_emit)
  then have "orderly s (step h PreviewCommand s)"
    using orderly_supervisor(1) by (auto simp: run_simps intro: orderly_trans)
  with True show ?thesis
    by (auto simp: orderly_supervisor)
next
  case False
  then have "calm (\<lambda>s. step h e s)"
    by (cases e)
      (simp_all add: calm_rules calm_direct calm_setupPixiEnvironment
        calm_installPixiDependencies calm_renderWithFormat calm_installCallback
        calm_setupResume)
  then show ?thesis
    by (simp add: calm_def calmly_orderly)
qed

lemma orderly_run_events: "orderly s (run_events evs s)"
proof (induction evs arbitrary: s)
  case Nil
  then show ?case by (simp add: run_events_def)
next
  case (Cons ev evs)
  obtain h e where ev: "ev = (h, e)" by (cases ev)
  from orderly_trans [OF orderly_step [of s h e] Cons.IH [of "step h e s"]] ev
  show ?case
    by (simp add: run_events_def)
qed

lemma preview_accepted:
  assumes "activeTextEditor h = Some document"
    and "languageId document = js ''quarto'' \<or> endsWith (fileName document) (js ''.qmd'')
         \<or> endsWith (fileName document) (js ''.rmd'')"
    and "getWorkspaceFolder h (uri document) = Some workspaceFolder"
    and "fs s (quartoWrapper h workspaceFolder)"
    and "previewProcess s = Some p"
  shows "trace (previewQuartoDocument h s) =
           trace s @
           [AppendLine (js ''Killing existing preview process...''),
            Kill p SIGINT,
            Track None,
            AppendLine (js ''Starting Preview: '' @ quoted (quartoWrapper h workspaceFolder)
              @ js '' '' @ join_with (js '' '') [js ''preview'', fileName document, js ''--no-browser'']),
            ShowChannel,
            Spawn (spawned s) (quoted (quartoWrapper h workspaceFolder))
              [js ''preview'', fileName document, js ''--no-browser''] (fsPath workspaceFolder),
            Track (Some (spawned s))]"
    and "previewProcess (previewQuartoDocument h s) = Some (spawned s)"
  using assms
  by (auto simp: previewQuartoDocument_def Let_def run_simps)

text \<open>
  A preview request that fails one of the four checks is turned down: it shows one error
  message and does nothing else.
\<close>

lemma preview_turned_down:
  assumes "activeTextEditor h = None
     \<or> (\<exists>document. activeTextEditor h = Some document
          \<and> ((languageId document \<noteq> js ''quarto''
               \<and> \<not> endsWith (fileName document) (js ''.qmd'')
               \<and> \<not> endsWith (fileName document) (js ''.rmd''))
             \<or> getWorkspaceFolder h (uri document) = None
             \<or> (\<exists>workspaceFolder. getWorkspaceFolder h (uri document) = Some workspaceFolder
                  \<and> \<not> fs s (quartoWrapper h workspaceFolder))))"
  shows "\<exists>msg. previewQuartoDocument h s = emit (ErrorMessage msg) s"
  using assms
  by (auto simp: previewQuartoDocument_def)

text \<open>
  Claim C1. Over any sequence of activations, commands and process events, on any hosts,
  the calls added to the trace keep to one tracked process at a time: a handle is assigned
  to \<open>previewProcess\<close> only while none is tracked, a process is spawned only while
  none is tracked, a signal goes only to the tracked process, and \<open>previewProcess\<close>
  is at every point what was last assigned to it. A preview request is carried out when
  an editor is active, its document is a Quarto or RMarkdown document, the document lies
  in a workspace folder and the wrapper of Quarto exists in that folder. When such a
  request arrives while a process \<open>p\<close> is tracked, the calls it makes are, in this
  order: a log line, the interrupt signal SIGINT to \<open>p\<close>, the clearing of the
  tracked handle, a log line, the showing of the log, the spawning of the new process,
  and only then the tracking of the new process.
\<close>

theorem preview_interrupts_tracked_before_spawn:
  "orderly s (run_events evs s)
   \<and> (activeTextEditor h = Some document
        \<and> (languageId document = js ''quarto''
             \<or> endsWith (fileName document) (js ''.qmd'')
             \<or> endsWith (fileName document) (js ''.rmd''))
        \<and> getWorkspaceFolder h (uri document) = Some workspaceFolder
        \<and> fs s (quartoWrapper h workspaceFolder)
        \<and> previewProcess s = Some p
      \<longrightarrow> trace (previewQuartoDocument h s) =
            trace s @
            [AppendLine (js ''Killing existing preview process...''),
             Kill p SIGINT,
             Track None,
             AppendLine (js ''Starting Preview: '' @ quoted (quartoWrapper h workspaceFolder)
               @ js '' ''
               @ join_with (js '' '') [js ''preview'', fileName document, js ''--no-browser'']),
             ShowChannel,
             Spawn (spawned s) (quoted (quartoWrapper h workspaceFolder))
               [js ''preview'', fileName document, js ''--no-browser''] (fsPath workspaceFolder),
             Track (Some (spawned s))]
          \<and> previewProcess (previewQuartoDocument h s) = Some (spawned s))"
  using orderly_run_events [of s evs] preview_accepted [of h document workspaceFolder s p]
  by blast

lemma running_state_fields:
  "spawned running_state = 1"
  "fs running_state (js ''/w/.vscode/quarto-pixi-wrapper.sh'')"
  "trace running_state =
     [AppendLine (js ''Starting Preview: \"/w/.vscode/quarto-pixi-wrapper.sh\" preview /w/a.qmd --no-browser''),
      ShowChannel,
      Spawn 0 (js ''\"/w/.vscode/quarto-pixi-wrapper.sh\"'')
        [js ''preview'', js ''/w/a.qmd'', js ''--no-browser''] (js ''/w''),
      Track (Some 0)]"
  by (simp_all add: running_state_def previewQuartoDocument_def linux_host_def start_state_def
      quartoWrapper_def endsWith_def js_def quoted_def Let_def run_simps)

lemma linux_host_fields:
  "activeTextEditor linux_host =
     Some \<lparr>languageId = js ''quarto'', fileName = js ''/w/a.qmd'', uri = js ''file:///w/a.qmd''\<rparr>"
  "getWorkspaceFolder linux_host u = Some \<lparr>fsPath = js ''/w'', folder_name = js ''w''\<rparr>"
  "quartoWrapper linux_host \<lparr>fsPath = js ''/w'', folder_name = js ''w''\<rparr>
     = js ''/w/.vscode/quarto-pixi-wrapper.sh''"
  by (simp_all add: linux_host_def quartoWrapper_def js_def)

theorem preview_interrupts_tracked_before_spawn_witness:
  "single_instance None
     (trace (run_events [(linux_host, PreviewCommand), (linux_host, PreviewCommand),
                         (linux_host, PreviewClose (Some 0)), (linux_host, PreviewCommand),
                         (linux_host, Deactivate)] start_state))
   \<and> previewProcess running_state = Some 0
   \<and> trace (previewQuartoDocument linux_host running_state) =
       trace running_state @
       [AppendLine (js ''Killing existing preview process...''),
        Kill 0 SIGINT,
        Track None,
        AppendLine (js ''Starting Preview: \"/w/.vscode/quarto-pixi-wrapper.sh\" preview /w/a.qmd --no-browser''),
        ShowChannel,
        Spawn 1 (js ''\"/w/.vscode/quarto-pixi-wrapper.sh\"'')
          [js ''preview'', js ''/w/a.qmd'', js ''--no-browser''] (js ''/w''),
        Track (Some 1)]
   \<and> previewProcess (previewQuartoDocument linux_host running_state) = Some 1"
proof -
  have s: "trace start_state = []" "previewProcess start_state = None"
    by (simp_all add: start_state_def)
  from s running_state_tracks running_state_fields(1,2) linux_host_fields
    preview_interrupts_tracked_before_spawn
      [of start_state "[(linux_host, PreviewCommand), (linux_host, PreviewCommand),
                         (linux_host, PreviewClose (Some 0)), (linux_host, PreviewCommand),
                         (linux_host, Deactivate)]"]
    preview_interrupts_tracked_before_spawn
      [of running_state "[]" linux_host
        "\<lparr>languageId = js ''quarto'', fileName = js ''/w/a.qmd'', uri = js ''file:///w/a.qmd''\<rparr>"
        "\<lparr>fsPath = js ''/w'', folder_name = js ''w''\<rparr>" 0]
  show ?thesis
    by (simp add: orderly_def js_def quoted_def)
qed

text \<open>
  The listener on \<open>error\<close> only writes a log line. When a process cannot be started,
  the runtime emits \<open>error\<close> and then \<open>close\<close>, and it is the listener on
  \<open>close\<close> that clears the handle. When a signal cannot be sent, \<open>error\<close> is
  emitted inside the call of \<open>kill\<close>, which both of its callers follow by the clearing
  of the handle.
\<close>

lemma error_listener_only_logs:
  "step h (PreviewFailure err) s =
     emit (AppendLine (nl @ js ''[Preview process error: '' @ err_message err @ js '']'' @ nl)) s"
  by (simp add: previewOnError_def)

text \<open>
  Claim C2. While a process \<open>p\<close> is tracked, the tracked handle is cleared (a) by
  the \<open>close\<close> event, with any exit code or with none; (b) when the process fails,
  by the \<open>close\<close> event that follows its \<open>error\<close> event; (c) by a preview
  command that is carried out, which logs, sends SIGINT to \<open>p\<close> and clears the handle
  before it spawns and tracks the new process. The command is carried out under the four
  conditions of claim C1.
\<close>

theorem supervisor_returns_to_idle:
  assumes "previewProcess s = Some p"
  shows "previewProcess (step h (PreviewClose code) s) = None
       \<and> previewProcess (run_events [(h, PreviewFailure err), (h, PreviewClose code)] s) = None
       \<and> (activeTextEditor h = Some document
            \<and> (languageId document = js ''quarto''
                 \<or> endsWith (fileName document) (js ''.qmd'')
                 \<or> endsWith (fileName document) (js ''.rmd''))
            \<and> getWorkspaceFolder h (uri document) = Some workspaceFolder
            \<and> fs s (quartoWrapper h workspaceFolder)
          \<longrightarrow> trace (step h PreviewCommand s) =
                trace s @
                [AppendLine (js ''Preview Quarto command triggered.''),
                 AppendLine (js ''Killing existing preview process...''),
                 Kill p SIGINT,
                 Track None,
                 AppendLine (js ''Starting Preview: '' @ quoted (quartoWrapper h workspaceFolder)
                   @ js '' ''
                   @ join_with (js '' '')
                       [js ''preview'', fileName document, js ''--no-browser'']),
                 ShowChannel,
                 Spawn (spawned s) (quoted (quartoWrapper h workspaceFolder))
                   [js ''preview'', fileName document, js ''--no-browser'']
                   (fsPath workspaceFolder),
                 Track (Some (spawned s))])"
proof -
  have a: "previewProcess (step h (PreviewClose code) s) = None"
    using assms by (simp add: previewOnClose_def run_simps)
  have "previewProcess (previewOnError err s) = Some p"
    using assms by (simp add: previewOnError_def)
  then have b: "previewProcess (run_events [(h, PreviewFailure err), (h, PreviewClose code)] s)
                = None"
    by (simp add: run_events_def previewOnClose_def run_simps)
  have c: "activeTextEditor h = Some document
            \<and> (languageId document = js ''quarto''
                 \<or> endsWith (fileName document) (js ''.qmd'')
                 \<or> endsWith (fileName document) (js ''.rmd''))
            \<and> getWorkspaceFolder h (uri document) = Some workspaceFolder
            \<and> fs s (quartoWrapper h workspaceFolder)
          \<Longrightarrow> trace (step h PreviewCommand s) =
                trace s @
                [AppendLine (js ''Preview Quarto command triggered.''),
                 AppendLine (js ''Killing existing preview process...''),
                 Kill p SIGINT,
                 Track None,
                 AppendLine (js ''Starting Preview: '' @ quoted (quartoWrapper h workspaceFolder)
                   @ js '' ''
                   @ join_with (js '' '')
                       [js ''preview'', fileName document, js ''--no-browser'']),
                 ShowChannel,
                 Spawn (spawned s) (quoted (quartoWrapper h workspaceFolder))
                   [js ''preview'', fileName document, js ''--no-browser'']
                   (fsPath workspaceFolder),
                 Track (Some (spawned s))]"
    using preview_accepted(1)
      [of h document workspaceFolder
        "emit (AppendLine (js ''Preview Quarto command triggered.'')) s" p] assms
    by (simp add: run_simps)
  from a b c show ?thesis
    by blast
qed

theorem supervisor_returns_to_idle_witness:
  "previewProcess running_state = Some 0
   \<and> previewProcess (step linux_host (PreviewClose (Some 130)) running_state) = None
   \<and> previewProcess (run_events [(linux_host, PreviewFailure spawn_error),
                                  (linux_host, PreviewClose (Some (- 2)))] running_state) = None
   \<and> trace (step linux_host PreviewCommand running_state) =
       trace running_state @
       [AppendLine (js ''Preview Quarto command triggered.''),
        AppendLine (js ''Killing existing preview process...''),
        Kill 0 SIGINT,
        Track None,
        AppendLine (js ''Starting Preview: \"/w/.vscode/quarto-pixi-wrapper.sh\" preview /w/a.qmd --no-browser''),
        ShowChannel,
        Spawn 1 (js ''\"/w/.vscode/quarto-pixi-wrapper.sh\"'')
          [js ''preview'', js ''/w/a.qmd'', js ''--no-browser''] (js ''/w''),
        Track (Some 1)]"
  using running_state_tracks running_state_fields(1,2) linux_host_fields
    supervisor_returns_to_idle
      [OF running_state_tracks, of linux_host "Some 130" spawn_error
        "\<lparr>languageId = js ''quarto'', fileName = js ''/w/a.qmd'', uri = js ''file:///w/a.qmd''\<rparr>"
        "\<lparr>fsPath = js ''/w'', folder_name = js ''w''\<rparr>"]
    supervisor_returns_to_idle
      [OF running_state_tracks, of linux_host "Some (- 2)" spawn_error
        "\<lparr>languageId = js ''quarto'', fileName = js ''/w/a.qmd'', uri = js ''file:///w/a.qmd''\<rparr>"
        "\<lparr>fsPath = js ''/w'', folder_name = js ''w''\<rparr>"]
  by (simp add: js_def quoted_def)

text \<open>
  The listener on \<open>close\<close> clears the variable whichever process closed. When process 0
  is replaced by process 1 and the \<open>close\<close> event of process 0 then arrives, process 1
  is no longer tracked, though it was neither interrupted nor closed; the next preview
  request finds no tracked process and spawns process 2 without a signal to process 1.
\<close>

lemma close_of_replaced_process_untracks_successor:
  "previewProcess (previewOnClose None (previewQuartoDocument linux_host running_state)) = None
   \<and> Kill 1 SIGINT
       \<notin> set (trace (previewQuartoDocument linux_host
                  (previewOnClose None (previewQuartoDocument linux_host running_state))))
   \<and> previewProcess (previewQuartoDocument linux_host
         (previewOnClose None (previewQuartoDocument linux_host running_state))) = Some 2"
proof -
  have r: "previewProcess running_state = Some 0" "spawned running_state = 1"
    "fs running_state (js ''/w/.vscode/quarto-pixi-wrapper.sh'')"
    "trace running_state =
       [AppendLine (js ''Starting Preview: \"/w/.vscode/quarto-pixi-wrapper.sh\" preview /w/a.qmd --no-browser''),
        ShowChannel,
        Spawn 0 (js ''\"/w/.vscode/quarto-pixi-wrapper.sh\"'')
          [js ''preview'', js ''/w/a.qmd'', js ''--no-browser''] (js ''/w''),
        Track (Some 0)]"
    by (simp_all add: running_state_def previewQuartoDocument_def linux_host_def start_state_def
        quartoWrapper_def endsWith_def js_def quoted_def Let_def run_simps)
  show ?thesis
    using r
    by (simp add: previewOnClose_def previewQuartoDocument_def linux_host_def
        quartoWrapper_def endsWith_def js_def quoted_def Let_def run_simps)
qed

subsection \<open>Opening the embedded browser once\<close>

lemma opens_append: "opens (xs @ ys) = opens xs @ opens ys"
  by (induction xs rule: opens.induct) simp_all

lemma handleOutput_latched:
  "browserOpened s p \<Longrightarrow>
   opens (trace (handleOutput p str s)) = opens (trace s) \<and> browserOpened (handleOutput p str s) p"
  by (simp add: handleOutput_def Let_def opens_append)

lemma handleOutput_no_url:
  "\<not> browserOpened s p \<Longrightarrow> regex_match url_pattern (replaceNonAscii (stripAnsi str)) = None \<Longrightarrow>
   opens (trace (handleOutput p str s)) = opens (trace s)
   \<and> \<not> browserOpened (handleOutput p str s) p"
  by (simp add: handleOutput_def Let_def opens_append)

lemma handleOutput_first_url:
  "\<not> browserOpened s p \<Longrightarrow> regex_match url_pattern (replaceNonAscii (stripAnsi str)) = Some u \<Longrightarrow>
   opens (trace (handleOutput p str s)) = opens (trace s) @ [u]
   \<and> browserOpened (handleOutput p str s) p"
  by (simp add: handleOutput_def Let_def opens_append run_simps)

lemma feed_simps:
  "feed p [] s = s"
  "feed p (c # cs) s = feed p cs (handleOutput p c s)"
  "feed p (xs @ ys) s = feed p ys (feed p xs s)"
  by (simp_all add: feed_def)

lemma feed_latched:
  "browserOpened s p \<Longrightarrow>
   opens (trace (feed p chunks s)) = opens (trace s) \<and> browserOpened (feed p chunks s) p"
  by (induction chunks arbitrary: s) (simp_all add: feed_simps handleOutput_latched)

lemma feed_no_url:
  "\<not> browserOpened s p \<Longrightarrow>
   \<forall>x\<in>set chunks. regex_match url_pattern (replaceNonAscii (stripAnsi x)) = None \<Longrightarrow>
   opens (trace (feed p chunks s)) = opens (trace s) \<and> \<not> browserOpened (feed p chunks s) p"
  by (induction chunks arbitrary: s) (simp_all add: feed_simps handleOutput_no_url)

lemma preview_latch_fresh:
  "spawned (previewQuartoDocument h s) \<noteq> spawned s \<Longrightarrow>
   \<not> browserOpened (previewQuartoDocument h s) (spawned s)"
  by (auto simp: previewQuartoDocument_def Let_def run_simps split: option.splits if_splits)

lemma running_state_fresh: "\<not> browserOpened running_state 0" "opens (trace running_state) = []"
  by (simp_all add: running_state_def previewQuartoDocument_def linux_host_def start_state_def
      quartoWrapper_def endsWith_def js_def Let_def run_simps)

lemmas regex_eval =
  replaceNonAscii_def stripAnsi_def ansi_pattern_def non_ascii_pattern_def url_pattern_def
  js_def match_here_def lit_def one_def rng_def in_class_def digit_def

lemma server_chunks_urls:
  "regex_match url_pattern (replaceNonAscii (stripAnsi (server_chunks ! 0))) = None"
  "regex_match url_pattern (replaceNonAscii (stripAnsi (server_chunks ! Suc 0)))
     = Some (js ''http://127.0.0.1:4200'')"
  "regex_match url_pattern (replaceNonAscii (stripAnsi (server_chunks ! 2)))
     = Some (js ''http://localhost:4200'')"
  by (simp_all add: server_chunks_def regex_eval)

subsection \<open>What the address pattern matches\<close>

lemma ms_digit: "ms digit s = (case s of [] \<Rightarrow> [] | c # t \<Rightarrow> if is_digit c then [t] else [])"
  by (simp add: digit_def in_class_def rng_def is_digit_def split: list.split)

lemma ms_lit: "ms (lit a) s = (case s of [] \<Rightarrow> [] | c # t \<Rightarrow> if c = of_char a then [t] else [])"
  by (auto simp: lit_def one_def rng_def in_class_def split: list.split)

lemma ms_lits: "ms (lits w) s = (if take (length w) s = js w then [drop (length w) s] else [])"
proof (induction w arbitrary: s rule: lits.induct)
  case 1
  then show ?case by (simp add: js_def)
next
  case (2 a)
  then show ?case
    by (cases s) (auto simp: ms_lit js_def)
next
  case (3 a b bs)
  show ?case
  proof (cases s)
    case Nil
    then show ?thesis by (simp add: ms_lit js_def)
  next
    case (Cons c t)
    with 3 [of t] show ?thesis
      by (auto simp: ms_lit js_def)
  qed
qed

lemma ms_digit_simps:
  "ms digit [] = []"
  "ms digit (c # t) = (if is_digit c then [t] else [])"
  by (simp_all add: ms_digit)

lemma rep_digits_step:
  "rep (ms digit) 0 None [] = [[]]"
  "rep (ms digit) 0 None (c # t) =
     (if is_digit c then rep (ms digit) 0 None t @ [c # t] else [c # t])"
  by (subst rep.simps, simp add: ms_digit_simps del: rep.simps ms.simps)+

lemma rep_digits_greedy:
  "rep (ms digit) 0 None s \<noteq> []
   \<and> hd (rep (ms digit) 0 None s) = dropWhile is_digit s"
  by (induction s) (simp_all add: rep_digits_step del: rep.simps ms.simps)

lemma ms_digits_plus:
  "ms (Rep (Suc 0) None digit) s =
     (case s of [] \<Rightarrow> [] | c # t \<Rightarrow> if is_digit c then rep (ms digit) 0 None t else [])"
proof -
  have "ms (Rep (Suc 0) None digit) s = concat (map (rep (ms digit) 0 None) (ms digit s))"
    by (simp del: rep.simps(2) ms.simps(1))
  then show ?thesis
    by (cases s) (simp_all add: ms_digit_simps del: rep.simps ms.simps)
qed

lemma match_here_digits_plus:
  "match_here (Rep (Suc 0) None digit) s =
     (case s of [] \<Rightarrow> None
      | c # t \<Rightarrow> if is_digit c then Some (dropWhile is_digit t) else None)"
proof (cases s)
  case Nil
  then show ?thesis
    by (simp add: match_here_def ms_digits_plus del: rep.simps ms.simps)
next
  case (Cons c t)
  from rep_digits_greedy [of t] show ?thesis
    by (cases "rep (ms digit) 0 None t")
      (simp_all add: match_here_def ms_digits_plus Cons del: rep.simps ms.simps)
qed

lemma match_here_digits_plus1:
  "match_here (Rep 1 None digit) s =
     (case s of [] \<Rightarrow> None
      | c # t \<Rightarrow> if is_digit c then Some (dropWhile is_digit t) else None)"
  using match_here_digits_plus [of s] by simp

lemma match_here_seq_lits:
  "match_here (Seq (lits w) r) s =
     (if take (length w) s = js w then match_here r (drop (length w) s) else None)"
  by (simp add: match_here_def ms_lits del: ms.simps(5))

lemma match_here_seq_lit:
  "match_here (Seq (lit a) r) s =
     (case s of [] \<Rightarrow> None | c # t \<Rightarrow> if c = of_char a then match_here r t else None)"
  by (simp add: match_here_def ms_lit del: ms.simps(5) split: list.split)

lemma match_here_seq_alt_lits:
  assumes "js v \<noteq> js w" and "length v = length w"
  shows "match_here (Seq (Alt (lits v) (lits w)) r) s =
     (if take (length v) s = js v \<or> take (length v) s = js w
      then match_here r (drop (length v) s) else None)"
  using assms by (auto simp add: match_here_def ms_lits simp del: ms.simps(5))

lemma match_here_url:
  "match_here url_pattern s =
     (if take 7 s = js ''http://'' then
        if take 9 (drop 7 s) = js ''localhost'' \<or> take 9 (drop 7 s) = js ''127.0.0.1'' then
          (case drop 9 (drop 7 s) of
             [] \<Rightarrow> None
           | c # t \<Rightarrow>
               if c = of_char CHR '':'' then
                 (case t of
                    [] \<Rightarrow> None
                  | d # ds \<Rightarrow> if is_digit d then Some (dropWhile is_digit ds) else None)
               else None)
        else None
      else None)"
proof -
  have a: "js ''localhost'' \<noteq> js ''127.0.0.1''" "length ''localhost'' = length ''127.0.0.1''"
    "length ''http://'' = 7" "length ''localhost'' = 9"
    by (simp_all add: js_def)
  show ?thesis
    unfolding url_pattern_def
    by (simp only: match_here_seq_lits match_here_seq_alt_lits [OF a(1,2)] match_here_seq_lit
        match_here_digits_plus1 a(3,4))
qed

lemma match_here_url_sound:
  assumes "match_here url_pattern s = Some s'"
  shows "\<exists>u. loopback_url u \<and> s = u @ s'"
proof -
  from assms have scheme: "take 7 s = js ''http://''"
    unfolding match_here_url by (simp split: if_splits)
  from assms have
    host: "take 9 (drop 7 s) = js ''localhost'' \<or> take 9 (drop 7 s) = js ''127.0.0.1''"
    unfolding match_here_url by (simp split: if_splits)
  from assms scheme host obtain c t where ct: "drop 9 (drop 7 s) = c # t"
    unfolding match_here_url by (cases "drop 9 (drop 7 s)") (simp_all split: if_splits)
  from assms scheme host ct have c: "c = of_char CHR '':''"
    unfolding match_here_url by (simp split: if_splits)
  from assms scheme host ct c obtain d ds where t: "t = d # ds"
    unfolding match_here_url by (cases t) (simp_all split: if_splits)
  from assms scheme host ct c t have digit: "is_digit d" and s': "s' = dropWhile is_digit ds"
    unfolding match_here_url by (simp_all split: if_splits)
  let ?port = "d # takeWhile is_digit ds"
  have port: "?port \<noteq> []" "list_all is_digit ?port"
    using digit by (simp_all add: list_all_iff) (meson set_takeWhileD)
  have "drop 9 (drop 7 s) = js '':'' @ ?port @ s'"
    using ct c t s' by (simp add: js_def)
  moreover have "s = take 7 s @ drop 7 s" "drop 7 s = take 9 (drop 7 s) @ drop 9 (drop 7 s)"
    by (simp_all only: append_take_drop_id)
  ultimately have s: "s = take 7 s @ take 9 (drop 7 s) @ js '':'' @ ?port @ s'"
    by metis
  from host show ?thesis
  proof
    assume "take 9 (drop 7 s) = js ''localhost''"
    with s scheme have "s = js ''http://'' @ js ''localhost'' @ js '':'' @ ?port @ s'"
      by metis
    then have "s = (js ''http://localhost:'' @ ?port) @ s'"
      by (simp add: js_def)
    with port show ?thesis
      unfolding loopback_url_def by blast
  next
    assume "take 9 (drop 7 s) = js ''127.0.0.1''"
    with s scheme have "s = js ''http://'' @ js ''127.0.0.1'' @ js '':'' @ ?port @ s'"
      by metis
    then have "s = (js ''http://127.0.0.1:'' @ ?port) @ s'"
      by (simp add: js_def)
    with port show ?thesis
      unfolding loopback_url_def by blast
  qed
qed

lemma match_here_url_complete:
  assumes "loopback_url u"
  shows "\<exists>s'. match_here url_pattern (u @ post) = Some s'"
proof -
  from assms obtain port where port: "port \<noteq> []" "list_all is_digit port"
    and u: "u = js ''http://localhost:'' @ port \<or> u = js ''http://127.0.0.1:'' @ port"
    unfolding loopback_url_def by blast
  from port obtain d ds where p: "port = d # ds" "is_digit d"
    by (cases port) simp_all
  from u show ?thesis
  proof
    assume "u = js ''http://localhost:'' @ port"
    then have "u @ post = js ''http://localhost:'' @ d # ds @ post"
      using p by simp
    then show ?thesis
      using p(2) by (simp add: match_here_url js_def)
  next
    assume "u = js ''http://127.0.0.1:'' @ port"
    then have "u @ post = js ''http://127.0.0.1:'' @ d # ds @ post"
      using p by simp
    then show ?thesis
      using p(2) by (simp add: match_here_url js_def)
  qed
qed

lemma regex_match_None_iff:
  "regex_match r s = None \<longleftrightarrow> (\<forall>k\<le>length s. match_here r (drop k s) = None)"
proof (induction s)
  case Nil
  then show ?case by (simp split: option.split)
next
  case (Cons c t)
  have "(\<forall>k\<le>length (c # t). match_here r (drop k (c # t)) = None)
        \<longleftrightarrow> match_here r (c # t) = None \<and> (\<forall>k\<le>length t. match_here r (drop k t) = None)"
    (is "?L \<longleftrightarrow> ?R")
  proof
    assume l: ?L
    from l [rule_format, of 0] have "match_here r (c # t) = None" by simp
    moreover have "\<forall>k\<le>length t. match_here r (drop k t) = None"
    proof (intro allI impI)
      fix k assume "k \<le> length t"
      with l [rule_format, of "Suc k"] show "match_here r (drop k t) = None" by simp
    qed
    ultimately show ?R by simp
  next
    assume r: ?R
    show ?L
    proof (intro allI impI)
      fix k assume "k \<le> length (c # t)"
      with r show "match_here r (drop k (c # t)) = None"
        by (cases k) simp_all
    qed
  qed
  with Cons show ?case
    by (simp split: option.split)
qed

lemma regex_match_Some:
  "regex_match r s = Some u \<Longrightarrow>
   \<exists>k s'. k \<le> length s \<and> match_here r (drop k s) = Some s'
          \<and> u = take (length (drop k s) - length s') (drop k s)"
proof (induction s)
  case Nil
  then show ?case by (auto split: option.splits)
next
  case (Cons c t)
  show ?case
  proof (cases "match_here r (c # t)")
    case None
    with Cons.prems have "regex_match r t = Some u" by simp
    from Cons.IH [OF this] obtain k s' where
      "k \<le> length t" "match_here r (drop k t) = Some s'"
      "u = take (length (drop k t) - length s') (drop k t)"
      by blast
    then have "Suc k \<le> length (c # t) \<and> match_here r (drop (Suc k) (c # t)) = Some s'
          \<and> u = take (length (drop (Suc k) (c # t)) - length s') (drop (Suc k) (c # t))"
      by simp
    then show ?thesis by blast
  next
    case (Some s')
    with Cons.prems have "0 \<le> length (c # t) \<and> match_here r (drop 0 (c # t)) = Some s'
          \<and> u = take (length (drop 0 (c # t)) - length s') (drop 0 (c # t))"
      by auto
    then show ?thesis by blast
  qed
qed

lemma url_match_is_url:
  assumes "regex_match url_pattern str = Some u"
  shows "loopback_url u \<and> (\<exists>pre post. str = pre @ u @ post)"
proof -
  from regex_match_Some [OF assms] obtain k s' where
    m: "match_here url_pattern (drop k str) = Some s'"
    and u: "u = take (length (drop k str) - length s') (drop k str)"
    by blast
  from match_here_url_sound [OF m] obtain v where v: "loopback_url v" "drop k str = v @ s'"
    by blast
  have "take (length (v @ s') - length s') (v @ s') = v"
    by simp
  with u have uv: "u = v"
    unfolding v(2) by (rule trans)
  have "str = take k str @ drop k str"
    by (simp only: append_take_drop_id)
  then have "str = take k str @ u @ s'"
    unfolding v(2) uv .
  with v(1) show ?thesis
    unfolding uv by (intro conjI exI)
qed

lemma url_match_iff: "regex_match url_pattern str \<noteq> None \<longleftrightarrow> has_loopback_url str"
proof
  assume "regex_match url_pattern str \<noteq> None"
  then obtain u where "regex_match url_pattern str = Some u" by blast
  from url_match_is_url [OF this] show "has_loopback_url str"
    unfolding has_loopback_url_def by blast
next
  assume "has_loopback_url str"
  then obtain pre u post where s: "str = pre @ u @ post" and u: "loopback_url u"
    unfolding has_loopback_url_def by blast
  from match_here_url_complete [OF u, of post] obtain s' where
    m: "match_here url_pattern (u @ post) = Some s'" by blast
  have d: "drop (length pre) str = u @ post" and l: "length pre \<le> length str"
    unfolding s by simp_all
  show "regex_match url_pattern str \<noteq> None"
  proof
    assume "regex_match url_pattern str = None"
    then have "match_here url_pattern (drop (length pre) str) = None"
      unfolding regex_match_None_iff using l by blast
    with m show False
      unfolding d by simp
  qed
qed

subsection \<open>One browser per process\<close>

lemma feed_opens_first_url:
  assumes "\<not> browserOpened s p"
    and "\<forall>x\<in>set pre. regex_match url_pattern (replaceNonAscii (stripAnsi x)) = None"
    and "regex_match url_pattern (replaceNonAscii (stripAnsi c)) = Some u"
  shows "opens (trace (feed p pre s)) = opens (trace s)
       \<and> opens (trace (feed p (pre @ [c]) s)) = opens (trace s) @ [u]
       \<and> opens (trace (feed p (pre @ c # post) s)) = opens (trace s) @ [u]"
proof -
  from feed_no_url [OF assms(1,2)]
  have pre: "opens (trace (feed p pre s)) = opens (trace s)"
    and closed: "\<not> browserOpened (feed p pre s) p"
    by simp_all
  from handleOutput_first_url [OF closed assms(3)]
  have first: "opens (trace (handleOutput p c (feed p pre s))) = opens (trace s) @ [u]"
    and latched: "browserOpened (handleOutput p c (feed p pre s)) p"
    by (simp_all add: pre)
  from feed_latched [OF latched, of post] first
  have "opens (trace (feed p post (handleOutput p c (feed p pre s)))) = opens (trace s) @ [u]"
    by simp
  with pre first show ?thesis
    by (simp add: feed_simps)
qed

text \<open>
  Claim C3. Let the variable \<open>browserOpened\<close> of a process be unset, as
  \<open>previewQuartoDocument\<close> leaves it when it spawns the process
  (\<open>preview_latch_fresh\<close>). If none of the output chunks \<open>pre\<close> holds a loopback
  address (\<open>http://localhost:PORT\<close> or \<open>http://127.0.0.1:PORT\<close>) after sanitising
  and the next chunk \<open>c\<close> holds one, then no browser is opened during \<open>pre\<close>, exactly
  one call opens the browser during \<open>c\<close>, on the leftmost loopback address \<open>u\<close> of the
  sanitised chunk, and no chunk after \<open>c\<close>, whatever it holds, opens it again.
\<close>

theorem browser_opened_once_per_process:
  assumes "\<not> browserOpened s p"
    and "\<forall>x\<in>set pre. \<not> has_loopback_url (replaceNonAscii (stripAnsi x))"
    and "has_loopback_url (replaceNonAscii (stripAnsi c))"
  shows "\<exists>u. loopback_url u
           \<and> regex_match url_pattern (replaceNonAscii (stripAnsi c)) = Some u
           \<and> opens (trace (feed p pre s)) = opens (trace s)
           \<and> opens (trace (feed p (pre @ [c]) s)) = opens (trace s) @ [u]
           \<and> opens (trace (feed p (pre @ c # post) s)) = opens (trace s) @ [u]"
proof -
  from assms(3) obtain u where
    u: "regex_match url_pattern (replaceNonAscii (stripAnsi c)) = Some u"
    unfolding url_match_iff [symmetric] by blast
  from assms(2) have
    none: "\<forall>x\<in>set pre. regex_match url_pattern (replaceNonAscii (stripAnsi x)) = None"
    unfolding url_match_iff [symmetric] by simp
  from url_match_is_url [OF u] have "loopback_url u" ..
  with u feed_opens_first_url [OF assms(1) none u, of post] show ?thesis
    by blast
qed

theorem browser_opened_once_per_process_witness:
  "\<not> browserOpened running_state 0
   \<and> \<not> has_loopback_url (replaceNonAscii (stripAnsi (server_chunks ! 0)))
   \<and> has_loopback_url (replaceNonAscii (stripAnsi (server_chunks ! Suc 0)))
   \<and> has_loopback_url (replaceNonAscii (stripAnsi (server_chunks ! 2)))
   \<and> opens (trace (feed 0 [server_chunks ! 0] running_state)) = []
   \<and> opens (trace (feed 0 [server_chunks ! 0, server_chunks ! Suc 0] running_state))
       = [js ''http://127.0.0.1:4200'']
   \<and> opens (trace (feed 0 server_chunks running_state)) = [js ''http://127.0.0.1:4200'']"
proof -
  have all: "server_chunks = [server_chunks ! 0] @ server_chunks ! Suc 0 # [server_chunks ! 2]"
    by (simp add: server_chunks_def)
  have urls:
    "\<not> has_loopback_url (replaceNonAscii (stripAnsi (server_chunks ! 0)))"
    "has_loopback_url (replaceNonAscii (stripAnsi (server_chunks ! Suc 0)))"
    "has_loopback_url (replaceNonAscii (stripAnsi (server_chunks ! 2)))"
    unfolding url_match_iff [symmetric] by (simp_all add: server_chunks_urls)
  have pre: "\<forall>x\<in>set [server_chunks ! 0].
      \<not> has_loopback_url (replaceNonAscii (stripAnsi x))"
    by (simp add: urls)
  from browser_opened_once_per_process
    [OF running_state_fresh(1) pre urls(2), of "[server_chunks ! 2]"]
  obtain u where
    "regex_match url_pattern (replaceNonAscii (stripAnsi (server_chunks ! Suc 0))) = Some u"
    "opens (trace (feed 0 [server_chunks ! 0] running_state)) = opens (trace running_state)"
    "opens (trace (feed 0 ([server_chunks ! 0] @ [server_chunks ! Suc 0]) running_state))
       = opens (trace running_state) @ [u]"
    "opens (trace (feed 0 ([server_chunks ! 0] @ server_chunks ! Suc 0 # [server_chunks ! 2])
         running_state)) = opens (trace running_state) @ [u]"
    by blast
  with all running_state_fresh server_chunks_urls(2) urls show ?thesis
    by simp
qed

subsection \<open>Sanitising of the output\<close>

lemma match_here_non_ascii:
  "match_here non_ascii_pattern [] = None"
  "match_here non_ascii_pattern (c # t) = (if c \<le> 0x7F then None else Some t)"
  by (simp_all add: match_here_def non_ascii_pattern_def in_class_def)

lemma replaceNonAscii_map: "replaceNonAscii str = map (\<lambda>c. if c \<le> 0x7F then c else 32) str"
  by (induction str) (simp_all add: replaceNonAscii_def match_here_non_ascii js_def)

lemma stderr_and_preview_log_ascii:
  "trace (stderrData str s) = trace s @ [Append (replaceNonAscii (stripAnsi str))]"
  "\<exists>rest. trace (handleOutput p str s) = trace s @ Append (replaceNonAscii (stripAnsi str)) # rest"
  "\<forall>c\<in>set (replaceNonAscii (stripAnsi str)). c \<le> 0x7F"
  by (auto simp: stderrData_def handleOutput_def Let_def run_simps replaceNonAscii_map
      split: option.split)

text \<open>
  Claim C6, at a chunk that holds the escape sequence for moving the cursor up, then the
  box-drawing character U+2500, then \<open>ok\<close>. The listener that a render (and an
  install) puts on the standard output removes the escape sequence only and logs the
  box-drawing character; the listener on the standard error and the listener of the
  preview log a space in its place.
\<close>

theorem render_stdout_logs_non_ascii:
  "trace (stdoutData escape_then_box start_state) = [Append ([0x2500] @ js ''ok'')]
   \<and> trace (stderrData escape_then_box start_state) = [Append (js '' ok'')]
   \<and> trace (handleOutput 0 escape_then_box running_state)
       = trace running_state @ [Append (js '' ok'')]"
proof -
  have strip: "stripAnsi escape_then_box = [0x2500] @ js ''ok''"
    by (simp add: escape_then_box_def regex_eval)
  have clean: "replaceNonAscii (stripAnsi escape_then_box) = js '' ok''"
    by (simp add: strip replaceNonAscii_map js_def)
  have none: "regex_match url_pattern (js '' ok'') = None"
    by (simp add: regex_eval)
  have "trace (stdoutData escape_then_box start_state) = [Append ([0x2500] @ js ''ok'')]"
    by (simp only: stdoutData_def strip emit_fields start_state_def ext_state.simps append_Nil)
  moreover have "trace (stderrData escape_then_box start_state) = [Append (js '' ok'')]"
    by (simp add: stderrData_def clean start_state_def)
  moreover have "trace (handleOutput 0 escape_then_box running_state)
       = trace running_state @ [Append (js '' ok'')]"
    by (simp add: handleOutput_def clean none Let_def)
  ultimately show ?thesis
    by simp
qed

subsection \<open>Choosing the environment\<close>

lemma find_first:
  "P e \<Longrightarrow> \<forall>x\<in>set pre. \<not> P x \<Longrightarrow> find P (pre @ e # post) = Some e"
  by (induction pre) simp_all

lemma find_none: "\<forall>x\<in>set xs. \<not> P x \<Longrightarrow> find P xs = None"
  by (induction xs) simp_all

text \<open>
  Claim C4. When a record of the list is named \<open>default\<close>, the resolver selects the
  first such record, whatever stands before or after it; when no record is named
  \<open>default\<close>, it selects the first record of the list.
\<close>

theorem resolver_prefers_default:
  "(env_name e = js ''default'' \<and> (\<forall>x\<in>set pre. env_name x \<noteq> js ''default'')
      \<longrightarrow> selectDefaultEnv (pre @ e # post) = Some e)
   \<and> ((\<forall>x\<in>set (first # others). env_name x \<noteq> js ''default'')
      \<longrightarrow> selectDefaultEnv (first # others) = Some first)"
proof (intro conjI impI)
  assume "env_name e = js ''default'' \<and> (\<forall>x\<in>set pre. env_name x \<noteq> js ''default'')"
  then have "find (\<lambda>e. env_name e = js ''default'') (pre @ e # post) = Some e"
    by (intro find_first) simp_all
  then show "selectDefaultEnv (pre @ e # post) = Some e"
    by (simp add: selectDefaultEnv_def)
next
  assume "\<forall>x\<in>set (first # others). env_name x \<noteq> js ''default''"
  then have "find (\<lambda>e. env_name e = js ''default'') (first # others) = None"
    by (intro find_none) simp
  then show "selectDefaultEnv (first # others) = Some first"
    by (simp add: selectDefaultEnv_def)
qed

lemma env_names:
  "env_name env_dev \<noteq> js ''default''"
  "env_name env_test \<noteq> js ''default''"
  "env_name env_default = js ''default''"
  by (simp_all add: env_dev_def env_test_def env_default_def js_def)

theorem resolver_prefers_default_witness:
  "env_name env_default = js ''default''
   \<and> env_name env_dev \<noteq> js ''default''
   \<and> env_name env_test \<noteq> js ''default''
   \<and> selectDefaultEnv [env_dev, env_default] = Some env_default
   \<and> selectDefaultEnv [env_default, env_dev] = Some env_default
   \<and> selectDefaultEnv [env_test, env_dev] = Some env_test"
  using env_names
    resolver_prefers_default [of env_default "[env_dev]" "[]" env_test "[env_dev]"]
    resolver_prefers_default [of env_default "[]" "[env_dev]" env_test "[env_dev]"]
  by simp

subsection \<open>Setting up a folder\<close>

lemmas host_eval =
  linux_host_def start_state_def js_def quoted_def
  host.simps ext_state.simps join_with.simps

lemma selectDefaultEnv_nonempty: "selectDefaultEnv envs = Some e \<Longrightarrow> envs \<noteq> []"
  by (auto simp: selectDefaultEnv_def)

text \<open>
  Claim C5. In a folder with a manifest, when the environment that the resolver selects has
  no prefix, or the empty string as prefix, the setup of the folder logs its three
  progress lines, runs \<open>pixi info --json\<close>, logs the error that no prefix was found for
  the environment, and does nothing else: no directory is made, no file is written or
  made executable, no setting is updated, and the file system is as it was.
\<close>

theorem setup_without_prefix_writes_nothing:
  assumes "fs s (path_join h [fsPath folder, js ''pixi.toml''])
           \<or> fs s (path_join h [fsPath folder, js ''pyproject.toml''])"
    and "pixi_info h (fsPath folder) = Parsed (PixiInfo (Some environments_info))"
    and "selectDefaultEnv environments_info = Some defaultEnv"
    and "env_prefix defaultEnv = None \<or> env_prefix defaultEnv = Some []"
  shows "trace (setupFolder h folder s) =
           trace s @
           [AppendLine (js ''Checking for pixi.toml or pyproject.toml at: '' @ fsPath folder),
            AppendLine (js ''Found Pixi manifest in '' @ folder_name folder),
            AppendLine (js ''Executing 'pixi info --json' in '' @ fsPath folder),
            Exec (js ''pixi info --json'') (fsPath folder),
            AppendLine (js ''Error: No prefix found for environment '' @ env_name defaultEnv)]
         \<and> fs (setupFolder h folder s) = fs s"
proof -
  from assms(3) have ne: "environments_info \<noteq> []"
    by (rule selectDefaultEnv_nonempty)
  from assms(4) have falsy: "truthy (env_prefix defaultEnv) = None"
    by (auto simp: truthy_def)
  from assms(1,2,3) ne falsy show ?thesis
    by (auto simp: setupFolder_def Let_def run_simps try_catch_def setupFromInfo_def
        setupWithInfo_def andThen_def getPixiInfo_def getPixiInfoStart_def
        getPixiInfoCallback_def pure_def)
qed

theorem setup_without_prefix_writes_nothing_witness:
  "fs start_state (path_join no_prefix_host [fsPath folder_w, js ''pixi.toml''])
   \<and> pixi_info no_prefix_host (fsPath folder_w) = Parsed (PixiInfo (Some [env_test, env_dev]))
   \<and> selectDefaultEnv [env_test, env_dev] = Some env_test
   \<and> env_prefix env_test = None
   \<and> trace (setupFolder no_prefix_host folder_w start_state) =
         [AppendLine (js ''Checking for pixi.toml or pyproject.toml at: /w''),
          AppendLine (js ''Found Pixi manifest in w''),
          AppendLine (js ''Executing 'pixi info --json' in /w''),
          Exec (js ''pixi info --json'') (js ''/w''),
          AppendLine (js ''Error: No prefix found for environment test'')]
   \<and> fs (setupFolder no_prefix_host folder_w start_state) = fs start_state"
proof -
  have a: "fs start_state (path_join no_prefix_host [fsPath folder_w, js ''pixi.toml''])
           \<or> fs start_state (path_join no_prefix_host [fsPath folder_w, js ''pyproject.toml''])"
    by (simp add: no_prefix_host_def folder_w_def host_eval)
  have b: "pixi_info no_prefix_host (fsPath folder_w)
           = Parsed (PixiInfo (Some [env_test, env_dev]))"
    by (simp add: no_prefix_host_def linux_host_def)
  have c: "selectDefaultEnv [env_test, env_dev] = Some env_test"
    by (simp add: selectDefaultEnv_def env_names)
  have d: "env_prefix env_test = None \<or> env_prefix env_test = Some []"
    by (simp add: env_test_def)
  have e: "trace start_state = []" "fsPath folder_w = js ''/w''" "folder_name folder_w = js ''w''"
    "env_name env_test = js ''test''" "env_prefix env_test = None"
    "fs start_state (path_join no_prefix_host [fsPath folder_w, js ''pixi.toml''])"
    by (simp_all add: start_state_def folder_w_def env_test_def no_prefix_host_def linux_host_def
        js_def)
  from setup_without_prefix_writes_nothing [OF a b c d] b c e show ?thesis
    by (simp add: js_def)
qed

text \<open>
  Claim C8. When the loop of the setup reaches a folder in which neither \<open>pixi.toml\<close>
  nor \<open>pyproject.toml\<close> exists, the folder's turn writes two log lines and nothing
  else, leaves the file system as it was, and the loop goes on with the next folder: no
  wrapper script is written and no setting is updated for that folder.
\<close>

theorem setup_skips_folder_without_manifest:
  assumes "workspaceFolders h = Some (before @ folder # rest)"
    and "s1 = foldl (\<lambda>s folder. setupFolder h folder s) s before"
    and "\<not> fs s1 (path_join h [fsPath folder, js ''pixi.toml''])"
    and "\<not> fs s1 (path_join h [fsPath folder, js ''pyproject.toml''])"
  shows "\<exists>s2. setupPixiEnvironment h s = foldl (\<lambda>s folder. setupFolder h folder s) s2 rest
            \<and> trace s2 =
                trace s1 @
                [AppendLine (js ''Checking for pixi.toml or pyproject.toml at: '' @ fsPath folder),
                 AppendLine (js ''No pixi.toml found in '' @ folder_name folder)]
            \<and> fs s2 = fs s1"
proof -
  let ?s2 = "setupFolder h folder s1"
  from assms(1,2) have "setupPixiEnvironment h s = foldl (\<lambda>s folder. setupFolder h folder s) ?s2 rest"
    by (simp add: setupPixiEnvironment_def)
  moreover from assms(3,4) have "trace ?s2 =
                trace s1 @
                [AppendLine (js ''Checking for pixi.toml or pyproject.toml at: '' @ fsPath folder),
                 AppendLine (js ''No pixi.toml found in '' @ folder_name folder)]
            \<and> fs ?s2 = fs s1"
    by (simp add: setupFolder_def Let_def run_simps)
  ultimately show ?thesis
    by blast
qed

theorem setup_skips_folder_without_manifest_witness:
  "workspaceFolders two_folder_host = Some ([] @ folder_v # [folder_w])
   \<and> \<not> fs start_state (path_join two_folder_host [fsPath folder_v, js ''pixi.toml''])
   \<and> \<not> fs start_state (path_join two_folder_host [fsPath folder_v, js ''pyproject.toml''])
   \<and> (\<exists>s2. setupPixiEnvironment two_folder_host start_state
               = foldl (\<lambda>s folder. setupFolder two_folder_host folder s) s2 [folder_w]
            \<and> trace s2 =
                [AppendLine (js ''Checking for pixi.toml or pyproject.toml at: /v''),
                 AppendLine (js ''No pixi.toml found in v'')]
            \<and> fs s2 = fs start_state)"
proof -
  have a: "workspaceFolders two_folder_host = Some ([] @ folder_v # [folder_w])"
    by (simp add: two_folder_host_def)
  have b: "start_state = foldl (\<lambda>s folder. setupFolder two_folder_host folder s) start_state []"
    by simp
  have c: "\<not> fs start_state (path_join two_folder_host [fsPath folder_v, js ''pixi.toml''])"
    and d: "\<not> fs start_state (path_join two_folder_host [fsPath folder_v, js ''pyproject.toml''])"
    by (simp_all add: two_folder_host_def folder_v_def host_eval)
  have e: "trace start_state = []" "fsPath folder_v = js ''/v''" "folder_name folder_v = js ''v''"
    by (simp_all add: start_state_def folder_v_def)
  from setup_skips_folder_without_manifest [OF a b c d] a c d e show ?thesis
    by (simp add: js_def)
qed

subsection \<open>The setup that an install starts\<close>

text \<open>
  Cutting \<open>setupPixiEnvironment\<close> at its first \<open>await\<close> and resuming it there is
  the function itself. After an install that succeeded, the next install is started as
  soon as the setup has reached that point.
\<close>

lemma setupFolder_cut:
  assumes "fs s (path_join h [fsPath folder, js ''pixi.toml''])
           \<or> fs s (path_join h [fsPath folder, js ''pyproject.toml''])"
  shows "setupFolder h folder s =
           try_catch (andThen (getPixiInfoCallback h (fsPath folder)) (setupWithInfo h folder))
             setupFailed
             (run [emit (AppendLine (js ''Found Pixi manifest in '' @ folder_name folder)),
                   getPixiInfoStart (fsPath folder)]
                (emit (AppendLine
                   (js ''Checking for pixi.toml or pyproject.toml at: '' @ fsPath folder)) s))"
  using assms
  by (simp add: setupFolder_def Let_def run_simps try_catch_def setupFromInfo_def andThen_def
      getPixiInfo_def)

lemma setup_cut_folders:
  "foldl (\<lambda>s folder. setupFolder h folder s) s folders =
     (case setupUntilAwait h folders s of
        (None, s') \<Rightarrow> s'
      | (Some (folder, rest), s') \<Rightarrow> setupResume h folder rest s')"
proof (induction folders arbitrary: s)
  case Nil
  then show ?case by simp
next
  case (Cons folder rest)
  show ?case
  proof (cases "fs s (path_join h [fsPath folder, js ''pixi.toml''])
                \<or> fs s (path_join h [fsPath folder, js ''pyproject.toml''])")
    case True
    from setupFolder_cut [OF True] True show ?thesis
      by (simp add: Let_def setupResume_def)
  next
    case False
    then have "setupFolder h folder s =
                 emit (AppendLine (js ''No pixi.toml found in '' @ folder_name folder))
                   (emit (AppendLine
                      (js ''Checking for pixi.toml or pyproject.toml at: '' @ fsPath folder)) s)"
      by (simp add: setupFolder_def Let_def run_simps)
    with False Cons.IH show ?thesis
      by (simp add: Let_def)
  qed
qed

lemma setup_cut_at_first_await:
  "setupPixiEnvironment h s =
     (case setupStart h s of
        (None, s') \<Rightarrow> s'
      | (Some (folder, rest), s') \<Rightarrow> setupResume h folder rest s')"
  by (simp add: setupPixiEnvironment_def setupStart_def setup_cut_folders split: option.split)

lemma install_goes_on_at_first_await:
  "trace (run_events [(two_folder_host, InstallCommand),
                      (two_folder_host, InstallFinished [folder_w] None (js ''ok'') [])]
            both_manifests_state) =
     [AppendLine (js ''Install dependencies command triggered.''),
      Progress (js ''Installing R and Quarto via Pixi in v...''),
      AppendLine (js ''Executing 'pixi add r-base r-languageserver quarto -c conda-forge' in /v''),
      Exec (js ''pixi add r-base r-languageserver quarto -c conda-forge'') (js ''/v''),
      AppendLine (js ''Install output: ok''),
      InformationMessage (js ''Successfully installed R and Quarto via Pixi.''),
      AppendLine (js ''Checking for pixi.toml or pyproject.toml at: /v''),
      AppendLine (js ''Found Pixi manifest in v''),
      AppendLine (js ''Executing 'pixi info --json' in /v''),
      Exec (js ''pixi info --json'') (js ''/v''),
      Progress (js ''Installing R and Quarto via Pixi in w...''),
      AppendLine (js ''Executing 'pixi add r-base r-languageserver quarto -c conda-forge' in /w''),
      Exec (js ''pixi add r-base r-languageserver quarto -c conda-forge'') (js ''/w'')]"
  by (simp add: run_events_def installPixiDependencies_def installCallback_def setupStart_def
      getPixiInfoStart_def two_folder_host_def both_manifests_state_def folder_v_def
      folder_w_def Let_def run_simps host_eval)

subsection \<open>The wrapper scripts\<close>

lemma generated_file_simps [simp]:
  "generated_file h w n p m (AppendLine x)"
  "generated_file h w n p m (Mkdir d)"
  "generated_file h w n p m (Chmod d md)"
  "generated_file h w n p m (WriteFile path content) =
     (wrapper_file h w n m path content \<or> auxiliary_file h w p path content)"
  by (simp_all add: generated_file_def)

lemma spec_wrapper_script_code:
  "spec_wrapper_script True m n (js ''R'') =
     js ''@echo off\<newline>pixi run --manifest-path '' @ quoted m @ js '' -e '' @ n @ js '' R %*''"
  "spec_wrapper_script True m n (js ''quarto'') =
     js ''@echo off\<newline>pixi run --manifest-path '' @ quoted m @ js '' -e '' @ n
     @ js '' quarto %*''"
  "spec_wrapper_script False m n (js ''R'') =
     js ''#!/bin/sh\<newline>exec pixi run --manifest-path '' @ quoted m @ js '' -e '' @ n
     @ js '' R \"$@\"''"
  "spec_wrapper_script False m n (js ''quarto'') =
     js ''#!/bin/sh\<newline>exec pixi run --manifest-path '' @ quoted m @ js '' -e '' @ n
     @ js '' quarto \"$@\"''"
  by (simp_all add: spec_wrapper_script_def quoted_def js_def nl_def)

lemma andThen_existsSync: "andThen (existsSync p k) r s = andThen (k (fs s p)) r s"
  by (simp add: andThen_def existsSync_def)

lemma added_andThen:
  assumes "keepsA P m" and "\<And>a s1. m s = (Returned a, s1) \<Longrightarrow> added P s1 (snd (k a s1))"
  shows "added P s (snd (andThen m k s))"
proof (cases "m s")
  case (Pair r s')
  with assms(1) have a: "added P s s'"
    by (auto simp: keepsA_def dest: spec [of _ s])
  show ?thesis
  proof (cases r)
    case (Returned x)
    with Pair a assms(2) [of x s'] show ?thesis
      by (auto simp: andThen_def intro: added_trans)
  next
    case (Thrown err)
    with Pair a show ?thesis by (simp add: andThen_def)
  qed
qed

lemma mkdir_keeps_other:
  assumes "existsSync d (\<lambda>found. only_if (\<not> found) (attempt h (Mkdir d))) s = (r, s1)"
    and "d \<noteq> p"
  shows "fs s1 p = fs s p"
  using assms
  by (auto simp: existsSync_def only_if_def pure_def attempt_def split: if_splits option.splits)

lemma added_andThen_existsSync:
  assumes "keepsA P (k (fs s p))" and "\<And>a. keepsA P (r a)"
  shows "added P s (snd (andThen (existsSync p k) r s))"
  using keepsA_andThen [of P "k (fs s p)" r, OF assms]
  by (simp add: keepsA_def andThen_existsSync)

lemma createWrapperScripts_generated:
  assumes "path_join h [workspacePath, js ''.vscode''] \<noteq> path_join h [workspacePath, js ''pixi.toml'']"
  shows "added (generated_file h workspacePath envName prefix (workspace_manifest h workspacePath s)) s
     (snd (createWrapperScripts h workspacePath envName prefix s))"
  unfolding createWrapperScripts_def Let_def
proof (rule added_andThen, goal_cases)
  case 1
  show ?case by (simp add: keeps_rules)
next
  case (2 a s1)
  from mkdir_keeps_other [OF 2 assms]
  have same: "fs s1 (path_join h [workspacePath, js ''pixi.toml''])
        = fs s (path_join h [workspacePath, js ''pixi.toml''])" .
  show ?case
    by (rule added_andThen_existsSync)
      (simp_all add: same keeps_rules wrapper_file_def wrapper_path_def auxiliary_file_def
        spec_wrapper_script_code workspace_manifest_def)
qed

lemma andThen_Returned:
  "andThen m k s = (Returned b, s'') \<longleftrightarrow>
     (\<exists>a s'. m s = (Returned a, s') \<and> k a s' = (Returned b, s''))"
  by (cases "m s"; cases "fst (m s)") (auto simp: andThen_def)

lemma sequence_Returned:
  "sequence [] s = (Returned u, s') \<longleftrightarrow> s' = s"
  "sequence (a # as) s = (Returned u, s'') \<longleftrightarrow>
     (\<exists>s'. a s = (Returned (), s') \<and> sequence as s' = (Returned u, s''))"
  by (auto split: prod.splits outcome.splits)

lemma attempt_Returned:
  "attempt h e s = (Returned u, s') \<longleftrightarrow>
     throws h (trace s) e = None \<and> s' = performed e (emit e s)"
  by (auto simp: attempt_def split: option.splits)

lemma writes_append: "writes (xs @ ys) = writes xs @ writes ys"
  by (induction xs rule: writes.induct) simp_all

lemma grows: "keepsA (\<lambda>e. True) a \<Longrightarrow> a s = (r, s') \<Longrightarrow> \<exists>es. trace s' = trace s @ es"
  by (auto simp: keepsA_def added_iff dest: spec [of _ s])

lemma performed_trace [simp]: "trace (performed e s) = trace s"
  by (cases e) simp_all

lemma wrappers_first:
  assumes "andThen m
             (\<lambda>u. andThen (existsSync p (\<lambda>found. sequence (attempt h (WriteFile p1 (c1 found))
                 # attempt h (WriteFile p2 (c2 found)) # others found))) r) s = (Returned paths, s')"
    and "\<And>r s1. m s = (r, s1) \<Longrightarrow> fs s1 p = fs s p \<and> (\<exists>es. trace s1 = trace s @ es \<and> writes es = [])"
    and "\<And>found. keepsA (\<lambda>e. True) (sequence (others found))"
    and "\<And>u. keepsA (\<lambda>e. True) (r u)"
  shows "take 2 (writes (drop (length (trace s)) (trace s'))) = [(p1, c1 (fs s p)), (p2, c2 (fs s p))]"
proof -
  from assms(1) obtain a s1 u s2 where
    m: "m s = (Returned a, s1)"
    and w: "existsSync p (\<lambda>found. sequence (attempt h (WriteFile p1 (c1 found))
                 # attempt h (WriteFile p2 (c2 found)) # others found)) s1 = (Returned u, s2)"
    and r: "r u s2 = (Returned paths, s')"
    unfolding andThen_Returned by blast
  from assms(2) [OF m] obtain pre where same: "fs s1 p = fs s p"
    and pre: "trace s1 = trace s @ pre" "writes pre = []"
    by blast
  from w same have "sequence (attempt h (WriteFile p1 (c1 (fs s p)))
                 # attempt h (WriteFile p2 (c2 (fs s p))) # others (fs s p)) s1 = (Returned u, s2)"
    by (simp add: existsSync_def del: sequence.simps)
  then obtain sa sb where
    sa: "attempt h (WriteFile p1 (c1 (fs s p))) s1 = (Returned (), sa)"
    and sb': "attempt h (WriteFile p2 (c2 (fs s p))) sa = (Returned (), sb)"
    and rest: "sequence (others (fs s p)) sb = (Returned u, s2)"
    unfolding sequence_Returned by blast
  from sa sb' have sb:
    "trace sb = trace s1 @ [WriteFile p1 (c1 (fs s p)), WriteFile p2 (c2 (fs s p))]"
    by (simp add: attempt_Returned)
  from grows [OF assms(3) rest] obtain es1 where es1: "trace s2 = trace sb @ es1" ..
  from grows [OF assms(4) r] obtain es2 where es2: "trace s' = trace s2 @ es2" ..
  from pre sb es1 es2 show ?thesis
    by (simp add: writes_append)
qed

lemma createWrapperScripts_returns:
  assumes "createWrapperScripts h workspacePath envName prefix s = (Returned paths, s')"
  shows "ret_rTermPath paths = wrapper_path h workspacePath (js ''rterm-pixi-wrapper'')"
    and "ret_quartoPath paths = wrapper_path h workspacePath (js ''quarto-pixi-wrapper'')"
  using assms
  unfolding createWrapperScripts_def Let_def andThen_Returned
  by (auto simp: wrapper_path_def)

lemma createWrapperScripts_writes:
  assumes "path_join h [workspacePath, js ''.vscode''] \<noteq> path_join h [workspacePath, js ''pixi.toml'']"
    and "createWrapperScripts h workspacePath envName prefix s = (Returned paths, s')"
  shows "take 2 (writes (drop (length (trace s)) (trace s'))) =
           [(wrapper_path h workspacePath (js ''rterm-pixi-wrapper''),
             spec_wrapper_script (platform h = js ''win32'') (workspace_manifest h workspacePath s)
               envName (js ''R'')),
            (wrapper_path h workspacePath (js ''quarto-pixi-wrapper''),
             spec_wrapper_script (platform h = js ''win32'') (workspace_manifest h workspacePath s)
               envName (js ''quarto''))]"
proof (rule wrappers_first [OF assms(2) [unfolded createWrapperScripts_def Let_def], THEN trans],
    goal_cases)
  case (1 r s1)
  with assms(1) show ?case
    by (auto simp: existsSync_def only_if_def pure_def attempt_def
        split: if_splits option.splits)
next
  case 2
  show ?case by (simp add: keeps_rules)
next
  case 3
  show ?case by (simp add: keeps_rules)
next
  case 4
  show ?case
    by (cases "platform h = js ''win32''")
      (simp_all add: wrapper_path_def workspace_manifest_def spec_wrapper_script_code)
qed

lemma returns_attempt: "throws h = (\<lambda>past e. None) \<Longrightarrow> returns (attempt h e)"
  by (simp add: returns_def attempt_def)

lemma returns_pure: "returns (pure f)"
  by (simp add: returns_def pure_def)

lemma returns_return: "returns (\<lambda>s. (Returned x, s))"
  by (simp add: returns_def)

lemma returns_andThen: "returns m \<Longrightarrow> (\<And>a. returns (k a)) \<Longrightarrow> returns (andThen m k)"
  unfolding returns_def andThen_def
  by (metis (mono_tags, lifting) case_prod_conv outcome.simps(5))

lemma returns_sequence: "list_all returns as \<Longrightarrow> returns (sequence as)"
proof (induction as)
  case Nil
  then show ?case by (simp add: returns_def)
next
  case (Cons a as)
  then have a: "returns a" and r: "returns (sequence as)" by simp_all
  show ?case
    unfolding returns_def
  proof
    fix s
    from a obtain x s' where "a s = (Returned x, s')" unfolding returns_def by blast
    moreover from r obtain y s'' where "sequence as s' = (Returned y, s'')"
      unfolding returns_def by blast
    ultimately show "\<exists>x s'. sequence (a # as) s = (Returned x, s')" by simp
  qed
qed

lemma returns_only_if: "(c \<Longrightarrow> returns a) \<Longrightarrow> returns (only_if c a)"
  by (simp add: only_if_def returns_pure)

lemma returns_existsSync: "(\<And>found. returns (k found)) \<Longrightarrow> returns (existsSync p k)"
  by (simp add: returns_def existsSync_def)

lemma createWrapperScripts_total:
  assumes "throws h = (\<lambda>past e. None)"
  shows "returns (createWrapperScripts h workspacePath envName prefix)"
  unfolding createWrapperScripts_def Let_def
  by (simp add: assms returns_attempt returns_pure returns_return returns_andThen
      returns_sequence returns_only_if returns_existsSync)

text \<open>
  Claim C9. \<open>createWrapperScripts\<close> is called for a workspace whose \<open>.vscode\<close>
  directory is not its \<open>pixi.toml\<close>. Every file it writes, also when a call throws
  midway, is a wrapper script or one of the three auxiliary files (the activation hook
  and the two shims). When it returns, the first two files it has written are the wrapper
  of R and the wrapper of Quarto, a batch file on Windows and a shell script elsewhere,
  and these are the paths it returns; it returns whenever no call on the file system
  throws. The content of a wrapper is the specification's: a first line (\<open>@echo off\<close>
  or \<open>#!/bin/sh\<close>), then a single command, \<open>pixi run\<close> with the manifest path and
  the environment name as fixed arguments, the tool, and the forwarding of the script's
  arguments by \<open>%*\<close> or \<open>"$@"\<close>, after \<open>exec\<close> in a shell script. The manifest
  is \<open>pixi.toml\<close> if it exists when the function is called, \<open>pyproject.toml\<close>
  otherwise.
\<close>

theorem wrapper_scripts_reinvoke_pixi_run:
  assumes "path_join h [workspacePath, js ''.vscode'']
           \<noteq> path_join h [workspacePath, js ''pixi.toml'']"
  shows "list_all
           (generated_file h workspacePath envName prefix (workspace_manifest h workspacePath s))
           (drop (length (trace s))
              (trace (snd (createWrapperScripts h workspacePath envName prefix s))))
       \<and> (fst (createWrapperScripts h workspacePath envName prefix s) = Returned paths \<longrightarrow>
            take 2 (writes (drop (length (trace s))
                      (trace (snd (createWrapperScripts h workspacePath envName prefix s))))) =
              [(wrapper_path h workspacePath (js ''rterm-pixi-wrapper''),
                spec_wrapper_script (platform h = js ''win32'')
                  (workspace_manifest h workspacePath s) envName (js ''R'')),
               (wrapper_path h workspacePath (js ''quarto-pixi-wrapper''),
                spec_wrapper_script (platform h = js ''win32'')
                  (workspace_manifest h workspacePath s) envName (js ''quarto''))]
            \<and> ret_rTermPath paths = wrapper_path h workspacePath (js ''rterm-pixi-wrapper'')
            \<and> ret_quartoPath paths = wrapper_path h workspacePath (js ''quarto-pixi-wrapper''))
       \<and> (throws h = (\<lambda>past e. None) \<longrightarrow>
            (\<exists>returned. fst (createWrapperScripts h workspacePath envName prefix s)
                          = Returned returned))"
proof -
  obtain r s' where run: "createWrapperScripts h workspacePath envName prefix s = (r, s')"
    by (cases "createWrapperScripts h workspacePath envName prefix s")
  have "list_all
           (generated_file h workspacePath envName prefix (workspace_manifest h workspacePath s))
           (drop (length (trace s))
              (trace (snd (createWrapperScripts h workspacePath envName prefix s))))"
    using createWrapperScripts_generated [OF assms, of envName prefix s]
    by (simp add: added_def)
  moreover have "r = Returned paths \<Longrightarrow>
            take 2 (writes (drop (length (trace s)) (trace s'))) =
              [(wrapper_path h workspacePath (js ''rterm-pixi-wrapper''),
                spec_wrapper_script (platform h = js ''win32'')
                  (workspace_manifest h workspacePath s) envName (js ''R'')),
               (wrapper_path h workspacePath (js ''quarto-pixi-wrapper''),
                spec_wrapper_script (platform h = js ''win32'')
                  (workspace_manifest h workspacePath s) envName (js ''quarto''))]
            \<and> ret_rTermPath paths = wrapper_path h workspacePath (js ''rterm-pixi-wrapper'')
            \<and> ret_quartoPath paths = wrapper_path h workspacePath (js ''quarto-pixi-wrapper'')"
    using createWrapperScripts_writes [OF assms, of envName prefix s paths s']
      createWrapperScripts_returns [of h workspacePath envName prefix s paths s'] run
    by simp
  moreover have "throws h = (\<lambda>past e. None) \<Longrightarrow>
            \<exists>returned. fst (createWrapperScripts h workspacePath envName prefix s)
                          = Returned returned"
    using createWrapperScripts_total [of h workspacePath envName prefix]
    unfolding returns_def by (metis fst_conv)
  ultimately show ?thesis
    using run by simp
qed

lemma linux_wrappers_returned:
  "fst (createWrapperScripts linux_host (js ''/w'') (js ''default'')
          (js ''/w/.pixi/envs/default'') s) =
     Returned \<lparr>ret_rPath = js ''/w/.pixi/envs/default/bin/R'',
               ret_rTermPath = js ''/w/.vscode/rterm-pixi-wrapper.sh'',
               ret_quartoPath = js ''/w/.vscode/quarto-pixi-wrapper.sh''\<rparr>"
  by (simp add: createWrapperScripts_def Let_def linux_host_def js_def andThen_def
      existsSync_def only_if_def attempt_def pure_def)

lemma windows_wrappers_returned:
  "fst (createWrapperScripts windows_host (js ''/w'') (js ''default'')
          (js ''/w/.pixi/envs/default'') s) =
     Returned \<lparr>ret_rPath = js ''/w/.pixi/envs/default/lib/R/bin/R.exe'',
               ret_rTermPath = js ''/w/.vscode/rterm-pixi-wrapper.bat'',
               ret_quartoPath = js ''/w/.vscode/quarto-pixi-wrapper.bat''\<rparr>"
  by (simp add: createWrapperScripts_def Let_def windows_host_def linux_host_def js_def
      andThen_def existsSync_def only_if_def attempt_def pure_def)

theorem wrapper_scripts_reinvoke_pixi_run_witness:
  "path_join linux_host [js ''/w'', js ''.vscode''] \<noteq> path_join linux_host [js ''/w'', js ''pixi.toml'']
   \<and> take 2 (writes (trace (snd (createWrapperScripts linux_host (js ''/w'') (js ''default'')
                                   (js ''/w/.pixi/envs/default'') start_state)))) =
       [(js ''/w/.vscode/rterm-pixi-wrapper.sh'',
         js ''#!/bin/sh\<newline>exec pixi run --manifest-path \"/w/pixi.toml\" -e default R \"$@\"''),
        (js ''/w/.vscode/quarto-pixi-wrapper.sh'',
         js ''#!/bin/sh\<newline>exec pixi run --manifest-path \"/w/pixi.toml\" -e default quarto \"$@\"'')]
   \<and> take 2 (writes (trace (snd (createWrapperScripts linux_host (js ''/w'') (js ''default'')
                                   (js ''/w/.pixi/envs/default'') pyproject_state)))) =
       [(js ''/w/.vscode/rterm-pixi-wrapper.sh'',
         js ''#!/bin/sh\<newline>exec pixi run --manifest-path \"/w/pyproject.toml\" -e default R \"$@\"''),
        (js ''/w/.vscode/quarto-pixi-wrapper.sh'',
         js ''#!/bin/sh\<newline>exec pixi run --manifest-path \"/w/pyproject.toml\" -e default quarto \"$@\"'')]
   \<and> take 2 (writes (trace (snd (createWrapperScripts windows_host (js ''/w'') (js ''default'')
                                   (js ''/w/.pixi/envs/default'') start_state)))) =
       [(js ''/w/.vscode/rterm-pixi-wrapper.bat'',
         js ''@echo off\<newline>pixi run --manifest-path \"/w/pixi.toml\" -e default R %*''),
        (js ''/w/.vscode/quarto-pixi-wrapper.bat'',
         js ''@echo off\<newline>pixi run --manifest-path \"/w/pixi.toml\" -e default quarto %*'')]"
proof -
  have d: "path_join linux_host [js ''/w'', js ''.vscode'']
           \<noteq> path_join linux_host [js ''/w'', js ''pixi.toml'']"
    "path_join windows_host [js ''/w'', js ''.vscode'']
           \<noteq> path_join windows_host [js ''/w'', js ''pixi.toml'']"
    by (simp_all add: windows_host_def host_eval)
  have e: "trace start_state = []" "trace pyproject_state = []"
    "workspace_manifest linux_host (js ''/w'') start_state = js ''/w/pixi.toml''"
    "workspace_manifest linux_host (js ''/w'') pyproject_state = js ''/w/pyproject.toml''"
    "workspace_manifest windows_host (js ''/w'') start_state = js ''/w/pixi.toml''"
    "wrapper_path linux_host (js ''/w'') (js ''rterm-pixi-wrapper'') = js ''/w/.vscode/rterm-pixi-wrapper.sh''"
    "wrapper_path linux_host (js ''/w'') (js ''quarto-pixi-wrapper'') = js ''/w/.vscode/quarto-pixi-wrapper.sh''"
    "wrapper_path windows_host (js ''/w'') (js ''rterm-pixi-wrapper'') = js ''/w/.vscode/rterm-pixi-wrapper.bat''"
    "wrapper_path windows_host (js ''/w'') (js ''quarto-pixi-wrapper'') = js ''/w/.vscode/quarto-pixi-wrapper.bat''"
    "platform linux_host \<noteq> js ''win32''" "platform windows_host = js ''win32''"
    by (simp_all add: workspace_manifest_def wrapper_path_def pyproject_state_def
        windows_host_def host_eval)
  have c: "\<And>m. spec_wrapper_script False (js m) (js ''default'') (js ''R'')
             = js (''#!/bin/sh\<newline>exec pixi run --manifest-path \"'' @ m @ ''\" -e default R \"$@\"'')"
    "\<And>m. spec_wrapper_script False (js m) (js ''default'') (js ''quarto'')
             = js (''#!/bin/sh\<newline>exec pixi run --manifest-path \"'' @ m @ ''\" -e default quarto \"$@\"'')"
    "\<And>m. spec_wrapper_script True (js m) (js ''default'') (js ''R'')
             = js (''@echo off\<newline>pixi run --manifest-path \"'' @ m @ ''\" -e default R %*'')"
    "\<And>m. spec_wrapper_script True (js m) (js ''default'') (js ''quarto'')
             = js (''@echo off\<newline>pixi run --manifest-path \"'' @ m @ ''\" -e default quarto %*'')"
    by (simp_all add: spec_wrapper_script_def quoted_def nl_def js_def)
  from d e
    wrapper_scripts_reinvoke_pixi_run [OF d(1), of "js ''default''" "js ''/w/.pixi/envs/default''"
      start_state]
    wrapper_scripts_reinvoke_pixi_run [OF d(1), of "js ''default''" "js ''/w/.pixi/envs/default''"
      pyproject_state]
    wrapper_scripts_reinvoke_pixi_run [OF d(2), of "js ''default''" "js ''/w/.pixi/envs/default''"
      start_state]
    linux_wrappers_returned windows_wrappers_returned
  show ?thesis
    by (simp add: c)
qed

subsection \<open>The command line of a render\<close>


lemma render_turned_down:
  assumes "activeTextEditor h = None
     \<or> (\<exists>document. activeTextEditor h = Some document
          \<and> ((languageId document \<noteq> js ''quarto''
               \<and> \<not> endsWith (fileName document) (js ''.qmd'')
               \<and> \<not> endsWith (fileName document) (js ''.rmd''))
             \<or> getWorkspaceFolder h (uri document) = None
             \<or> (\<exists>workspaceFolder. getWorkspaceFolder h (uri document) = Some workspaceFolder
                  \<and> \<not> fs s (quartoWrapper h workspaceFolder))))"
  shows "\<exists>msg. renderQuartoDocument h format s = emit (ErrorMessage msg) s"
  using assms
  by (auto simp: renderQuartoDocument_def)

lemma render_empty_format_as_none:
  "renderQuartoDocument h (Some []) s = renderQuartoDocument h None s"
  by (simp add: renderQuartoDocument_def truthy_def Let_def split: option.split)

lemma formats_labels_not_empty: "list_all (\<lambda>(label, description). label \<noteq> []) formats"
  by (simp add: formats_def js_def)











end
